theory Spec2Isabelle
  imports
    Complex_Main
    "HOL-Library.Sublist"
    "HOL-Library.Char_ord"
    "HOL-Library.List_Lexorder"
    "HOL-Library.Multiset"
begin

section \<open>Python strings and paths\<close>

text \<open>
  A Python \<open>str\<close> is modelled as a \<open>string\<close> (a list of characters). Lists of
  characters are ordered lexicographically by character code, a proper prefix first,
  which is the order of Python's \<open>sorted\<close> on strings.
\<close>

definition str_startswith :: "string \<Rightarrow> string \<Rightarrow> bool" where
  "str_startswith s pre = prefix pre s"

definition str_endswith :: "string \<Rightarrow> string \<Rightarrow> bool" where
  "str_endswith s suf = suffix suf s"

text \<open>\<open>sub in s\<close> on strings: \<open>sub\<close> occurs in \<open>s\<close> as a contiguous block.\<close>

fun str_contains :: "string \<Rightarrow> string \<Rightarrow> bool" where
  "str_contains [] sub = (sub = [])"
| "str_contains (c # cs) sub = (prefix sub (c # cs) \<or> str_contains cs sub)"

text \<open>
  \<open>s.replace(old, new)\<close>: every non-overlapping occurrence of \<open>old\<close>, found from
  left to right, is replaced. (For an empty \<open>old\<close> Python puts \<open>new\<close> before every
  character and at the end.)
\<close>

function str_replace_scan :: "string \<Rightarrow> string \<Rightarrow> string \<Rightarrow> string" where
  "str_replace_scan old new [] = []"
| "str_replace_scan old new (c # cs) =
     (if old \<noteq> [] \<and> prefix old (c # cs)
      then new @ str_replace_scan old new (drop (length old) (c # cs))
      else c # str_replace_scan old new cs)"
  by pat_completeness auto
termination
  by (relation "measure (\<lambda>(old, new, s). length s)") auto

definition str_replace :: "string \<Rightarrow> string \<Rightarrow> string \<Rightarrow> string" where
  "str_replace s old new =
     (if old = [] then new @ concat (map (\<lambda>c. c # new) s)
      else str_replace_scan old new s)"

text \<open>\<open>os.path.join(a, b)\<close> of \<open>posixpath\<close>, and its form with several components.\<close>

definition os_path_join :: "string \<Rightarrow> string \<Rightarrow> string" where
  "os_path_join a b =
     (if str_startswith b ''/'' then b
      else if a = [] \<or> str_endswith a ''/'' then a @ b
      else a @ ''/'' @ b)"

definition os_path_join_all :: "string \<Rightarrow> string list \<Rightarrow> string" where
  "os_path_join_all a ps = foldl os_path_join a ps"

section \<open>The world the script runs in\<close>

text \<open>
  A directory tree as \<open>os.walk\<close> sees it: the entries of a directory in the order
  \<open>os.scandir\<close> lists them. A symbolic link to a directory is listed among the
  directories and is not followed; everything that is not a directory is a file.
\<close>

datatype node = File | Dir "(string \<times> node) list" | DirLink

type_synonym environment = "string \<rightharpoonup> string"

text \<open>
  The exceptions the calls of the script can raise: \<open>FileNotFoundError\<close>, an
  \<open>OSError\<close> of another kind, and the \<open>UnicodeDecodeError\<close> of an output that is
  not text.
\<close>

datatype py_error = FileNotFoundError | OtherOSError | UnicodeDecodeError

text \<open>
  What the script observes of its surroundings. \<open>w_stat p\<close> is \<open>os.stat\<close> of \<open>p\<close>:
  the modification time (the value of \<open>os.path.getmtime\<close>), or the \<open>OSError\<close> raised,
  \<open>FileNotFoundError\<close> or one of another kind (a loop of links, a permission); any of
  them makes \<open>os.path.exists\<close> false. \<open>w_scandir p\<close> is the tree below the directory \<open>p\<close>,
  \<open>None\<close> when \<open>p\<close> cannot be listed; \<open>w_glob\<close> is \<open>glob.glob\<close>, \<open>w_home\<close> is
  \<open>os.path.expanduser('~')\<close>, \<open>w_environ\<close> is \<open>os.environ\<close>. \<open>spawned\<close> logs the
  child processes started so far: argument vector and environment.
\<close>

record world =
  w_stat :: "string \<Rightarrow> py_error + real"
  w_scandir :: "string \<Rightarrow> (string \<times> node) list option"
  w_glob :: "string \<Rightarrow> string list"
  w_home :: string
  w_environ :: environment
  spawned :: "(string list \<times> environment) list"

definition os_path_exists :: "world \<Rightarrow> string \<Rightarrow> bool" where
  "os_path_exists w p = (case w_stat w p of Inl e \<Rightarrow> False | Inr t \<Rightarrow> True)"

definition os_path_getmtime :: "world \<Rightarrow> string \<Rightarrow> py_error + real" where
  "os_path_getmtime w p = (case w_stat w p of Inl e \<Rightarrow> Inl e | Inr t \<Rightarrow> Inr t)"

section \<open>Freshness evaluation\<close>

datatype verdict = Missing | Outdated | Up_to_date

text \<open>The output path: \<open>mmd_file.replace('.mmd', '.svg')\<close>.\<close>

definition svg_path :: "string \<Rightarrow> string" where
  "svg_path mmd_file = str_replace mmd_file ''.mmd'' ''.svg''"

definition needs_generation :: "world \<Rightarrow> string \<Rightarrow> py_error + (bool \<times> verdict)" where
  "needs_generation w mmd_file =
     (let svg_file = svg_path mmd_file in
      if \<not> os_path_exists w svg_file then Inr (True, Missing)
      else
        case os_path_getmtime w mmd_file of
          Inl e \<Rightarrow> Inl e
        | Inr mmd_mtime \<Rightarrow>
            (case os_path_getmtime w svg_file of
               Inl e \<Rightarrow> Inl e
             | Inr svg_mtime \<Rightarrow>
                 if mmd_mtime > svg_mtime then Inr (True, Outdated)
                 else Inr (False, Up_to_date)))"

section \<open>Source discovery\<close>

fun is_dir :: "node \<Rightarrow> bool" where
  "is_dir File = False"
| "is_dir (Dir es) = True"
| "is_dir DirLink = True"

definition dirs_of :: "(string \<times> node) list \<Rightarrow> string list" where
  "dirs_of es = map fst (filter (\<lambda>(name, n). is_dir n) es)"

definition files_of :: "(string \<times> node) list \<Rightarrow> string list" where
  "files_of es = map fst (filter (\<lambda>(name, n). \<not> is_dir n) es)"

text \<open>
  \<open>os.walk(top)\<close>, from the top down, links not followed: one triple \<open>(root, dirs, files)\<close> for
  every directory scanned, a directory before its subdirectories. The caller may prune
  \<open>dirs\<close> in place before the walk descends; \<open>keep\<close> is the caller's test, and the
  triple holds \<open>dirs\<close> as the caller leaves it. Only the directories kept are scanned.
\<close>

fun os_walk :: "(string \<Rightarrow> bool) \<Rightarrow> string \<Rightarrow> (string \<times> node) list
      \<Rightarrow> (string \<times> string list \<times> string list) list"
  and os_walk_subdirs :: "(string \<Rightarrow> bool) \<Rightarrow> string \<Rightarrow> (string \<times> node) list
      \<Rightarrow> (string \<times> string list \<times> string list) list" where
  "os_walk keep dirpath es =
     (dirpath, filter keep (dirs_of es), files_of es) # os_walk_subdirs keep dirpath es"
| "os_walk_subdirs keep dirpath [] = []"
| "os_walk_subdirs keep dirpath ((name, n) # es) =
     (case n of
        Dir sub \<Rightarrow> if keep name then os_walk keep (os_path_join dirpath name) sub else []
      | _ \<Rightarrow> [])
     @ os_walk_subdirs keep dirpath es"

text \<open>\<open>os.walk\<close> of a path that cannot be listed yields nothing.\<close>

definition os_walk_path :: "world \<Rightarrow> (string \<Rightarrow> bool) \<Rightarrow> string
      \<Rightarrow> (string \<times> string list \<times> string list) list" where
  "os_walk_path w keep dirpath =
     (case w_scandir w dirpath of None \<Rightarrow> [] | Some es \<Rightarrow> os_walk keep dirpath es)"

definition excluded_dirs :: "string list" where
  "excluded_dirs = [''.git'', ''.venv'', ''__pycache__'', ''node_modules'']"

definition not_excluded :: "string \<Rightarrow> bool" where
  "not_excluded d = (d \<notin> set excluded_dirs)"

text \<open>The list \<open>mmd_files\<close> as the loop of \<open>find_mmd_files\<close> builds it, before sorting.\<close>

definition mmd_in_walk :: "(string \<times> string list \<times> string list) list \<Rightarrow> string list" where
  "mmd_in_walk triples =
     concat (map (\<lambda>(dirpath, dirs, files).
       map (os_path_join dirpath) (filter (\<lambda>file. str_endswith file ''.mmd'') files)) triples)"

definition find_mmd_files :: "world \<Rightarrow> string \<Rightarrow> string list" where
  "find_mmd_files w root_dir = sort (mmd_in_walk (os_walk_path w not_excluded root_dir))"

text \<open>
  The tree itself, with no pruning, for stating what discovery leaves out: every
  directory below the root as the chain of directory names leading to it, and every
  file as the chain of its directory together with its name.
\<close>

fun tree_dirs :: "string list \<Rightarrow> (string \<times> node) list \<Rightarrow> string list list"
  and tree_subdirs :: "string list \<Rightarrow> (string \<times> node) list \<Rightarrow> string list list" where
  "tree_dirs chain es = chain # tree_subdirs chain es"
| "tree_subdirs chain [] = []"
| "tree_subdirs chain ((name, n) # es) =
     (case n of Dir sub \<Rightarrow> tree_dirs (chain @ [name]) sub | _ \<Rightarrow> [])
     @ tree_subdirs chain es"

fun tree_files :: "string list \<Rightarrow> (string \<times> node) list \<Rightarrow> (string list \<times> string) list"
  and tree_subfiles :: "string list \<Rightarrow> (string \<times> node) list \<Rightarrow> (string list \<times> string) list" where
  "tree_files chain es = map (Pair chain) (files_of es) @ tree_subfiles chain es"
| "tree_subfiles chain [] = []"
| "tree_subfiles chain ((name, n) # es) =
     (case n of Dir sub \<Rightarrow> tree_files (chain @ [name]) sub | _ \<Rightarrow> [])
     @ tree_subfiles chain es"

definition inside_excluded :: "string list \<Rightarrow> bool" where
  "inside_excluded chain = (set chain \<inter> set excluded_dirs \<noteq> {})"

text \<open>The same tree up to the order in which the entries of each directory are listed.\<close>

inductive same_entries :: "(string \<times> node) list \<Rightarrow> (string \<times> node) list \<Rightarrow> bool"
  and same_node :: "node \<Rightarrow> node \<Rightarrow> bool" where
  same_Nil: "same_entries [] []"
| same_Cons: "same_node n n' \<Longrightarrow> same_entries es es' \<Longrightarrow> same_entries ((a, n) # es) ((a, n') # es')"
| same_swap: "same_entries (x # y # es) (y # x # es)"
| same_trans: "same_entries es es' \<Longrightarrow> same_entries es' es'' \<Longrightarrow> same_entries es es''"
| same_File: "same_node File File"
| same_DirLink: "same_node DirLink DirLink"
| same_Dir: "same_entries es es' \<Longrightarrow> same_node (Dir es) (Dir es')"

section \<open>Helper-executable discovery\<close>

definition system_chrome_paths :: "string list" where
  "system_chrome_paths =
     [''/Applications/Google Chrome.app/Contents/MacOS/Google Chrome'',
      ''/Applications/Chromium.app/Contents/MacOS/Chromium'',
      ''/usr/bin/google-chrome'',
      ''/usr/bin/chromium'']"

definition puppeteer_cache_paths :: "string \<Rightarrow> string list" where
  "puppeteer_cache_paths home_dir =
     [os_path_join_all home_dir [''.cache'', ''puppeteer'', ''chrome'', ''*'', ''chrome-mac-arm64'',
        ''Google Chrome.app'', ''Contents'', ''MacOS'', ''Google Chrome''],
      os_path_join_all home_dir [''.cache'', ''puppeteer'', ''chrome'', ''*'', ''chrome-mac-x64'',
        ''Google Chrome.app'', ''Contents'', ''MacOS'', ''Google Chrome''],
      os_path_join_all home_dir [''.cache'', ''puppeteer'', ''chrome'', ''*'',
        ''chrome-headless-shell-mac-arm64'', ''chrome-headless-shell''],
      os_path_join_all home_dir [''.cache'', ''puppeteer'', ''chrome'', ''*'',
        ''chrome-headless-shell-mac-x64'', ''chrome-headless-shell''],
      os_path_join_all home_dir [''.cache'', ''puppeteer'', ''chrome'', ''*'',
        ''chrome-headless-shell'', ''chrome-headless-shell'']]"

definition puppeteer_direct_paths :: "string \<Rightarrow> string list" where
  "puppeteer_direct_paths home_dir =
     [os_path_join_all home_dir [''.cache'', ''puppeteer'', ''chrome'']]"

text \<open>The loop over the glob patterns: the first pattern with a match decides.\<close>

fun first_glob_match :: "world \<Rightarrow> string list \<Rightarrow> string option" where
  "first_glob_match w [] = None"
| "first_glob_match w (pattern # patterns) =
     (let matches = w_glob w pattern in
      if matches \<noteq> [] then Some (last (sort matches))
      else first_glob_match w patterns)"

text \<open>The loop over the triples of \<open>os.walk(base_path)\<close>, left at the first hit.\<close>

fun chrome_in_walk :: "(string \<times> string list \<times> string list) list \<Rightarrow> string option" where
  "chrome_in_walk [] = None"
| "chrome_in_walk ((dirpath, dirs, files) # triples) =
     (if ''chrome-headless-shell'' \<in> set files
      then Some (os_path_join dirpath ''chrome-headless-shell'')
      else if ''chrome'' \<in> set files \<and> \<not> str_contains dirpath ''headless''
      then Some (os_path_join dirpath ''chrome'')
      else chrome_in_walk triples)"

fun chrome_in_bases :: "world \<Rightarrow> string list \<Rightarrow> string option" where
  "chrome_in_bases w [] = None"
| "chrome_in_bases w (base_path # base_paths) =
     (case (if os_path_exists w base_path
            then chrome_in_walk (os_walk_path w (\<lambda>d. True) base_path) else None) of
        Some path \<Rightarrow> Some path
      | None \<Rightarrow> chrome_in_bases w base_paths)"

definition find_chrome_path :: "world \<Rightarrow> string option" where
  "find_chrome_path w =
     (case find (os_path_exists w) system_chrome_paths of
        Some path \<Rightarrow> Some path
      | None \<Rightarrow>
          (let home_dir = w_home w in
           case first_glob_match w (puppeteer_cache_paths home_dir) of
             Some path \<Rightarrow> Some path
           | None \<Rightarrow> chrome_in_bases w (puppeteer_direct_paths home_dir)))"

section \<open>Child processes\<close>

text \<open>
  \<open>subprocess.run\<close> with the output captured and \<open>text=True\<close>: the child cannot be
  started; or it completes with a return code, its standard output and its standard
  error, decoded; or it completes with a return code and what it wrote cannot be decoded
  as text, and \<open>subprocess.run\<close> raises \<open>UnicodeDecodeError\<close>, whatever the return code.
\<close>

datatype proc_result = Launch_failed py_error | Completed int string string | Undecodable int

text \<open>
  The operating system running a command is a parameter of the model: from the world, the
  argument vector and the child's environment to the world afterwards and the result.
\<close>

type_synonym os_exec = "world \<Rightarrow> string list \<Rightarrow> environment \<Rightarrow> world \<times> proc_result"

definition subprocess_run :: "os_exec \<Rightarrow> world \<Rightarrow> string list \<Rightarrow> environment \<Rightarrow> world \<times> proc_result" where
  "subprocess_run exec w args env =
     (case exec w args env of
        (w', r) \<Rightarrow> (w'\<lparr>spawned := spawned w @ [(args, env)]\<rparr>, r))"

section \<open>Availability check\<close>

text \<open>
  \<open>check=True\<close> raises \<open>CalledProcessError\<close> on a non-zero return code; that and
  \<open>FileNotFoundError\<close> are caught. Any other failure to start the child is not, and
  neither is the \<open>UnicodeDecodeError\<close> of an output that cannot be decoded.
\<close>

definition check_mmdc :: "os_exec \<Rightarrow> world \<Rightarrow> world \<times> (py_error + bool)" where
  "check_mmdc exec w =
     (case subprocess_run exec w [''mmdc'', ''--version''] (w_environ w) of
        (w', Completed returncode out err) \<Rightarrow> (w', Inr (returncode = 0))
      | (w', Launch_failed FileNotFoundError) \<Rightarrow> (w', Inr False)
      | (w', Launch_failed e) \<Rightarrow> (w', Inl e)
      | (w', Undecodable returncode) \<Rightarrow> (w', Inl UnicodeDecodeError))"

section \<open>Render invocation\<close>

text \<open>The environment handed to the child: \<open>os.environ.copy()\<close>, then the two entries.\<close>

definition child_env :: "environment \<Rightarrow> string option \<Rightarrow> environment" where
  "child_env environ chrome_path =
     (case chrome_path of
        None \<Rightarrow> environ
      | Some path \<Rightarrow>
          if path \<noteq> [] then environ(''PUPPETEER_EXECUTABLE_PATH'' \<mapsto> path, ''CHROME_PATH'' \<mapsto> path)
          else environ)"

definition generate_svg :: "os_exec \<Rightarrow> world \<Rightarrow> string \<Rightarrow> world \<times> (py_error + (bool \<times> string option))" where
  "generate_svg exec w mmd_file =
     (let svg_file = svg_path mmd_file;
          chrome_path = find_chrome_path w;
          env = child_env (w_environ w) chrome_path
      in case subprocess_run exec w [''mmdc'', ''-i'', mmd_file, ''-o'', svg_file] env of
           (w', Completed returncode out err) \<Rightarrow>
             if returncode = 0 then (w', Inr (True, None)) else (w', Inr (False, Some err))
         | (w', Launch_failed e) \<Rightarrow> (w', Inl e)
         | (w', Undecodable returncode) \<Rightarrow> (w', Inl UnicodeDecodeError))"

section \<open>Text for the report\<close>

text \<open>
  \<open>str(n)\<close> of an integer, and the string methods of the error listing. A character
  stands for a code point below 256; \<open>isspace\<close> and \<open>lower\<close> are Python's on that range.
\<close>

fun str_of_nat :: "nat \<Rightarrow> string" where
  "str_of_nat n =
     (if n < 10 then [char_of (48 + n)]
      else str_of_nat (n div 10) @ [char_of (48 + n mod 10)])"

definition str_of_int :: "int \<Rightarrow> string" where
  "str_of_int i = (if i < 0 then ''-'' @ str_of_nat (nat (- i)) else str_of_nat (nat i))"

definition char_isspace :: "char \<Rightarrow> bool" where
  "char_isspace c =
     ((of_char c :: nat) \<in> {9, 10, 11, 12, 13, 28, 29, 30, 31, 32, 133, 160})"

definition str_strip :: "string \<Rightarrow> string" where
  "str_strip s = rev (dropWhile char_isspace (rev (dropWhile char_isspace s)))"

fun str_split :: "string \<Rightarrow> char \<Rightarrow> string list" where
  "str_split [] sep = [[]]"
| "str_split (c # cs) sep =
     (if c = sep then [] # str_split cs sep
      else case str_split cs sep of
             [] \<Rightarrow> [[c]]
           | piece # pieces \<Rightarrow> (c # piece) # pieces)"

definition char_lower :: "char \<Rightarrow> char" where
  "char_lower c =
     (let k = (of_char c :: nat) in
      if (65 \<le> k \<and> k \<le> 90) \<or> (192 \<le> k \<and> k \<le> 222 \<and> k \<noteq> 215) then char_of (k + 32) else c)"

definition str_lower :: "string \<Rightarrow> string" where
  "str_lower s = map char_lower s"

text \<open>\<open>str(error)\<close> of the error kept for a file: the captured text, or \<open>None\<close>.\<close>

definition str_of_error :: "string option \<Rightarrow> string" where
  "str_of_error error = (case error of None \<Rightarrow> ''None'' | Some text \<Rightarrow> text)"

section \<open>The run\<close>

text \<open>
  The state of \<open>main\<close>: the world, the three counters, the list of errors and what has
  been printed, one entry for each call of \<open>print\<close>.
\<close>

record run_state =
  the_world :: world
  generated :: int
  updated :: int
  skipped :: int
  errors :: "(string \<times> string option) list"
  stdout :: "string list"

definition print :: "run_state \<Rightarrow> string \<Rightarrow> run_state" where
  "print st line = st\<lparr>stdout := stdout st @ [line]\<rparr>"

definition print_all :: "run_state \<Rightarrow> string list \<Rightarrow> run_state" where
  "print_all st lines = foldl print st lines"

text \<open>
  One pass of the loop over \<open>mmd_files\<close>. An exception nothing catches ends the run: it
  is returned with the state reached.
\<close>

definition process_file :: "os_exec \<Rightarrow> run_state \<Rightarrow> string \<Rightarrow> run_state \<times> py_error option" where
  "process_file exec st mmd_file =
     (case needs_generation (the_world st) mmd_file of
        Inl e \<Rightarrow> (st, Some e)
      | Inr (needs_gen, status) \<Rightarrow>
          if \<not> needs_gen then (st\<lparr>skipped := skipped st + 1\<rparr>, None)
          else
            (let svg_file = svg_path mmd_file in
             case status of
               Missing \<Rightarrow>
                 (let st1 = print st (''Generating: '' @ svg_file) in
                  case generate_svg exec (the_world st1) mmd_file of
                    (w', Inl e) \<Rightarrow> (st1\<lparr>the_world := w'\<rparr>, Some e)
                  | (w', Inr (success, error)) \<Rightarrow>
                      if success
                      then (st1\<lparr>the_world := w', generated := generated st1 + 1\<rparr>, None)
                      else (st1\<lparr>the_world := w', errors := errors st1 @ [(mmd_file, error)]\<rparr>, None))
             | Outdated \<Rightarrow>
                 (let st1 = print st (''Updating: '' @ svg_file @ '' (source is newer)'') in
                  case generate_svg exec (the_world st1) mmd_file of
                    (w', Inl e) \<Rightarrow> (st1\<lparr>the_world := w'\<rparr>, Some e)
                  | (w', Inr (success, error)) \<Rightarrow>
                      if success
                      then (st1\<lparr>the_world := w', updated := updated st1 + 1\<rparr>, None)
                      else (st1\<lparr>the_world := w', errors := errors st1 @ [(mmd_file, error)]\<rparr>, None))
             | Up_to_date \<Rightarrow> (st, None)))"

fun process_files :: "os_exec \<Rightarrow> run_state \<Rightarrow> string list \<Rightarrow> run_state \<times> py_error option" where
  "process_files exec st [] = (st, None)"
| "process_files exec st (mmd_file # mmd_files) =
     (case process_file exec st mmd_file of
        (st', Some e) \<Rightarrow> (st', Some e)
      | (st', None) \<Rightarrow> process_files exec st' mmd_files)"

text \<open>
  How the process ends: \<open>sys.exit(code)\<close>, or an exception nothing catches, after which
  the interpreter exits with status 1.
\<close>

record outcome =
  exit_code :: int
  uncaught :: "py_error option"
  final :: run_state

definition sys_exit :: "run_state \<Rightarrow> int \<Rightarrow> outcome" where
  "sys_exit st code = \<lparr>exit_code = code, uncaught = None, final = st\<rparr>"

definition crash :: "run_state \<Rightarrow> py_error \<Rightarrow> outcome" where
  "crash st e = \<lparr>exit_code = 1, uncaught = Some e, final = st\<rparr>"

definition summary_line :: "run_state \<Rightarrow> string" where
  "summary_line st =
     [CHR 0x0A] @ ''Summary: Generated: '' @ str_of_int (generated st)
       @ '', Updated: '' @ str_of_int (updated st)
       @ '', Skipped: '' @ str_of_int (skipped st)
       @ '', Errors: '' @ str_of_int (int (length (errors st)))"

definition print_error :: "run_state \<Rightarrow> string \<times> string option \<Rightarrow> run_state" where
  "print_error st entry =
     (case entry of (mmd_file, error) \<Rightarrow>
        (let st1 = print st (''  '' @ mmd_file @ '':'');
             error_lines = str_split (str_strip (str_of_error error)) (CHR 0x0A);
             st2 = print_all st1 (map (\<lambda>line. ''    '' @ line) (take 3 error_lines))
         in if length error_lines > 3
            then print st2 (''    ... ('' @ str_of_int (int (length error_lines) - 3) @ '' more lines)'')
            else st2))"

definition chrome_error :: "(string \<times> string option) list \<Rightarrow> bool" where
  "chrome_error errs =
     list_ex (\<lambda>(mmd_file, e). str_contains (str_of_error e) ''Chrome''
                \<or> str_contains (str_lower (str_of_error e)) ''puppeteer'') errs"

text \<open>The summary and the exit, after the loop.\<close>

definition report :: "run_state \<Rightarrow> outcome" where
  "report st =
     (let st1 = print st (summary_line st) in
      if errors st1 \<noteq> [] then
        (let st2 = print st1 ([CHR 0x0A] @ ''Errors:'');
             st3 = foldl print_error st2 (errors st2)
         in if chrome_error (errors st3)
            then sys_exit (print_all st3
                   [[CHR 0x0A] @ ''Note: Chrome/Chromium is required for mermaid-cli.'',
                    ''Install it with: npx puppeteer browsers install chrome-headless-shell'']) 1
            else sys_exit st3 1)
      else sys_exit st1 0)"

text \<open>The loop and what follows it: the rest of \<open>main\<close> once the counters are set up.\<close>

definition main_loop :: "os_exec \<Rightarrow> run_state \<Rightarrow> string list \<Rightarrow> outcome" where
  "main_loop exec st mmd_files =
     (case process_files exec st mmd_files of
        (st', Some e) \<Rightarrow> crash st' e
      | (st', None) \<Rightarrow> report st')"

definition install_message :: "string list" where
  "install_message =
     [''Error: mermaid-cli (mmdc) not found.'',
      ''Install it with:'',
      ''  macOS: brew install mermaid-cli'',
      ''  Other: npm install -g @mermaid-js/mermaid-cli'',
      [],
      ''Note: mermaid-cli requires Chrome/Chromium. After installation, run:'',
      ''  npx puppeteer browsers install chrome-headless-shell'']"

definition initial_state :: "world \<Rightarrow> run_state" where
  "initial_state w =
     \<lparr>the_world = w, generated = 0, updated = 0, skipped = 0, errors = [], stdout = []\<rparr>"

definition main :: "os_exec \<Rightarrow> world \<Rightarrow> outcome" where
  "main exec w =
     (case check_mmdc exec w of
        (w1, Inl e) \<Rightarrow> crash (initial_state w1) e
      | (w1, Inr available) \<Rightarrow>
          if \<not> available then sys_exit (print_all (initial_state w1) install_message) 1
          else
            (let mmd_files = find_mmd_files w1 ''.'' in
             if mmd_files = [] then sys_exit (print (initial_state w1) ''No .mmd files found.'') 0
             else
               (let st = print_all (initial_state w1)
                      [''Scanning for Mermaid files (.mmd)...'',
                       ''Found '' @ str_of_int (int (length mmd_files)) @ '' file(s)'' @ [CHR 0x0A]]
                in main_loop exec st mmd_files)))"

section \<open>Well-formed names\<close>

text \<open>
  The names a file system hands out are not empty and hold no slash. The path of an
  entry then determines the chain of names that leads to it.
\<close>

definition wf_name :: "string \<Rightarrow> bool" where
  "wf_name name = (name \<noteq> [] \<and> CHR ''/'' \<notin> set name)"

fun wf_names :: "(string \<times> node) list \<Rightarrow> bool" where
  "wf_names [] = True"
| "wf_names ((name, n) # es) =
     (wf_name name \<and> (case n of Dir sub \<Rightarrow> wf_names sub | _ \<Rightarrow> True) \<and> wf_names es)"

definition path_of :: "string \<Rightarrow> string list \<times> string \<Rightarrow> string" where
  "path_of r entry = (case entry of (chain, f) \<Rightarrow> os_path_join (os_path_join_all r chain) f)"

text \<open>A chain of names as a path relative to a root: a slash before every name.\<close>

definition slashed :: "string list \<Rightarrow> string" where
  "slashed cs = concat (map ((#) CHR ''/'') cs)"

section \<open>Accounting for the files\<close>

text \<open>The number of files accounted for by the counters and the list of errors.\<close>

definition counted :: "run_state \<Rightarrow> int" where
  "counted st = generated st + updated st + skipped st + int (length (errors st))"

text \<open>The state after the line the loop prints before a render, by verdict.\<close>

definition announce :: "run_state \<Rightarrow> verdict \<Rightarrow> string \<Rightarrow> run_state" where
  "announce st v f =
     (case v of
        Missing \<Rightarrow> print st (''Generating: '' @ svg_path f)
      | Outdated \<Rightarrow> print st (''Updating: '' @ svg_path f @ '' (source is newer)'')
      | Up_to_date \<Rightarrow> st)"

text \<open>The state in which \<open>main\<close> enters the loop: counters at zero, the two opening lines printed.\<close>

definition loop_start :: "world \<Rightarrow> string list \<Rightarrow> run_state" where
  "loop_start w1 mmd_files =
     print_all (initial_state w1)
       [''Scanning for Mermaid files (.mmd)...'',
        ''Found '' @ str_of_int (int (length mmd_files)) @ '' file(s)'' @ [CHR 0x0A]]"

section \<open>A sample project\<close>

text \<open>
  A small project used to run the definitions: two diagrams at the top, one in
  \<open>docs\<close>, and diagrams inside \<open>node_modules\<close> and inside a nested \<open>.git\<close>.
  \<open>./a.svg\<close> is older than its source, \<open>./b.svg\<close> does not exist and
  \<open>./docs/a.svg\<close> has the timestamp of its source.
\<close>

definition sample_tree :: "(string \<times> node) list" where
  "sample_tree =
     [(''b.mmd'', File),
      (''node_modules'', Dir [(''pkg'', Dir [(''x.mmd'', File)])]),
      (''docs'', Dir [(''a.mmd'', File), (''.git'', Dir [(''h.mmd'', File)]), (''notes.txt'', File)]),
      (''a.mmd'', File)]"

definition sample_tree_reordered :: "(string \<times> node) list" where
  "sample_tree_reordered =
     [(''node_modules'', Dir [(''pkg'', Dir [(''x.mmd'', File)])]),
      (''b.mmd'', File),
      (''docs'', Dir [(''.git'', Dir [(''h.mmd'', File)]), (''a.mmd'', File), (''notes.txt'', File)]),
      (''a.mmd'', File)]"

text \<open>The files with their modification times; any other path does not exist.\<close>

definition stat_of :: "(string \<rightharpoonup> real) \<Rightarrow> string \<Rightarrow> py_error + real" where
  "stat_of mtimes p = (case mtimes p of None \<Rightarrow> Inl FileNotFoundError | Some t \<Rightarrow> Inr t)"

definition sample_stat :: "string \<Rightarrow> py_error + real" where
  "sample_stat =
     stat_of [''./a.mmd'' \<mapsto> 20, ''./a.svg'' \<mapsto> 10, ''./b.mmd'' \<mapsto> 5,
              ''./docs/a.mmd'' \<mapsto> 7, ''./docs/a.svg'' \<mapsto> 7]"

definition sample_world :: world where
  "sample_world =
     \<lparr>w_stat = sample_stat,
      w_scandir = [''.'' \<mapsto> sample_tree],
      w_glob = (\<lambda>pattern. []),
      w_home = ''/home/dev'',
      w_environ = [''PATH'' \<mapsto> ''/usr/bin''],
      spawned = []\<rparr>"

text \<open>
  A renderer that is installed, fails on \<open>./b.mmd\<close> with a message on standard error
  and otherwise writes its output file.
\<close>

definition sample_exec :: os_exec where
  "sample_exec w args env =
     (case args of
        [cmd, i, src, out, dst] \<Rightarrow>
          if src = ''./b.mmd'' then (w, Completed 1 [] ''Parse error on line 1'')
          else (w\<lparr>w_stat := (w_stat w)(dst := Inr 100)\<rparr>, Completed 0 [] [])
      | _ \<Rightarrow> (w, Completed 0 ''11.4.0'' []))"

text \<open>
  The same renderer, except that on \<open>./b.mmd\<close> it fails with return code 1 and writes
  bytes that are not text.
\<close>

definition garbled_exec :: os_exec where
  "garbled_exec w args env =
     (case args of
        [cmd, i, src, out, dst] \<Rightarrow>
          if src = ''./b.mmd'' then (w, Undecodable 1)
          else (w\<lparr>w_stat := (w_stat w)(dst := Inr 100)\<rparr>, Completed 0 [] [])
      | _ \<Rightarrow> (w, Completed 0 ''11.4.0'' []))"

text \<open>A renderer that completes with the given return code and writes bytes that are not text.\<close>

definition undecodable_exec :: "int \<Rightarrow> os_exec" where
  "undecodable_exec returncode w args env = (w, Undecodable returncode)"

text \<open>No renderer installed: nothing can be started.\<close>

definition absent_exec :: os_exec where
  "absent_exec w args env = (w, Launch_failed FileNotFoundError)"

text \<open>A renderer that starts, writes a line on standard error and ends with return code 1.\<close>

definition broken_exec :: os_exec where
  "broken_exec w args env = (w, Completed 1 [] ''mmdc: cannot find module'')"

text \<open>The same world with a project directory that holds no diagram.\<close>

definition plain_tree :: "(string \<times> node) list" where
  "plain_tree = [(''README.md'', File), (''src'', Dir [(''main.py'', File)])]"

definition plain_world :: world where
  "plain_world = sample_world\<lparr>w_scandir := [''.'' \<mapsto> plain_tree]\<rparr>"

text \<open>
  A browser cache holding a plain browser and a headless shell in two directories that
  no glob pattern of \<open>find_chrome_path\<close> matches, listed in either order.
\<close>

definition cache_tree :: "(string \<times> node) list" where
  "cache_tree =
     [(''linux-131'', Dir
        [(''chrome-linux64'', Dir [(''chrome'', File)]),
         (''chrome-headless-shell-linux64'', Dir [(''chrome-headless-shell'', File)])])]"

definition cache_tree_reordered :: "(string \<times> node) list" where
  "cache_tree_reordered =
     [(''linux-131'', Dir
        [(''chrome-headless-shell-linux64'', Dir [(''chrome-headless-shell'', File)]),
         (''chrome-linux64'', Dir [(''chrome'', File)])])]"

definition cache_world :: "(string \<times> node) list \<Rightarrow> world" where
  "cache_world tree =
     sample_world
       \<lparr>w_stat := (w_stat sample_world)(''/home/dev/.cache/puppeteer/chrome'' := Inr 1),
        w_scandir := (w_scandir sample_world)(''/home/dev/.cache/puppeteer/chrome'' \<mapsto> tree)\<rparr>"

text \<open>
  A project whose diagrams sit in a directory named \<open>docs.mmd\<close>: the source
  \<open>flow.mmd\<close> and, beside it, its output \<open>flow.svg\<close>, older than the source.
\<close>

definition nested_world :: world where
  "nested_world =
     sample_world
       \<lparr>w_stat := stat_of [''./docs.mmd'' \<mapsto> 30, ''./docs.mmd/flow.mmd'' \<mapsto> 30,
                            ''./docs.mmd/flow.svg'' \<mapsto> 20],
        w_scandir := [''.'' \<mapsto> [(''docs.mmd'', Dir [(''flow.mmd'', File), (''flow.svg'', File)])]]\<rparr>"


section \<open>Freshness verdicts\<close>

text \<open>
  The verdict in terms of the output path that \<open>needs_generation\<close> computes: it is
  \<open>Missing\<close> exactly when that path does not exist; when the source and that path both
  exist, it is \<open>Outdated\<close> exactly when the source's modification time is strictly
  greater, and equal timestamps give \<open>Up_to_date\<close>, with no generation needed.
\<close>

lemma needs_generation_by_computed_path:
  "((\<exists>b. needs_generation w f = Inr (b, Missing)) \<longleftrightarrow> \<not> os_path_exists w (svg_path f)) \<and>
   (\<forall>tm ts. w_stat w f = Inr tm \<and> w_stat w (svg_path f) = Inr ts \<longrightarrow>
      ((\<exists>b. needs_generation w f = Inr (b, Outdated)) \<longleftrightarrow> ts < tm) \<and>
      (tm = ts \<longrightarrow> needs_generation w f = Inr (False, Up_to_date)) \<and>
      needs_generation w f = Inr (if ts < tm then (True, Outdated) else (False, Up_to_date)))"
  by (auto simp: needs_generation_def os_path_exists_def os_path_getmtime_def Let_def
      split: sum.splits)

lemma sample_svg_paths:
  "svg_path ''./a.mmd'' = ''./a.svg''"
  "svg_path ''./b.mmd'' = ''./b.svg''"
  "svg_path ''./docs/a.mmd'' = ''./docs/a.svg''"
  by (simp_all add: svg_path_def str_replace_def)

lemma sample_verdicts:
  "needs_generation sample_world ''./a.mmd'' = Inr (True, Outdated)"
  "needs_generation sample_world ''./docs/a.mmd'' = Inr (False, Up_to_date)"
  "needs_generation sample_world ''./b.mmd'' = Inr (True, Missing)"
  by code_simp+

section \<open>The output path\<close>

text \<open>
  When \<open>.mmd\<close> occurs in the path only as its last four characters, the output path
  is the source path with the extension replaced.
\<close>

lemma str_replace_scan_last:
  assumes "old \<noteq> []"
    and "\<forall>i < length stem. \<not> prefix old (drop i (stem @ old))"
  shows "str_replace_scan old new (stem @ old) = stem @ new"
  using assms(2)
proof (induction stem)
  case Nil
  from assms(1) obtain c cs where old: "old = c # cs" by (cases old) auto
  show ?case by (simp add: old)
next
  case (Cons a stem)
  from Cons.prems have "\<not> prefix old (drop 0 ((a # stem) @ old))" by blast
  then have np: "\<not> prefix old (a # stem @ old)" by simp
  have "\<forall>i < length stem. \<not> prefix old (drop i (stem @ old))"
  proof (intro allI impI)
    fix i assume "i < length stem"
    then have "Suc i < length (a # stem)" by simp
    with Cons.prems have "\<not> prefix old (drop (Suc i) ((a # stem) @ old))" by blast
    then show "\<not> prefix old (drop i (stem @ old))" by simp
  qed
  with Cons.IH have "str_replace_scan old new (stem @ old) = stem @ new" by blast
  with np show ?case by simp
qed

lemma svg_path_only_extension:
  assumes "\<forall>i < length stem. \<not> prefix ''.mmd'' (drop i (stem @ ''.mmd''))"
  shows "svg_path (stem @ ''.mmd'') = stem @ ''.svg''"
  using str_replace_scan_last[of "''.mmd''" stem "''.svg''"] assms
  by (simp add: svg_path_def str_replace_def)

text \<open>
  C2. The output path is computed by replacing every occurrence of \<open>.mmd\<close>, not only
  the extension. Discovery finds \<open>./docs.mmd/flow.mmd\<close> in a directory named
  \<open>docs.mmd\<close>; the output path computed for it is \<open>./docs.svg/flow.svg\<close>, in another
  directory, and not \<open>./docs.mmd/flow.svg\<close>.
\<close>

theorem svg_path_rewrites_directory_name:
  "find_mmd_files nested_world ''.'' = [''./docs.mmd/flow.mmd''] \<and>
   str_endswith ''./docs.mmd/flow.mmd'' ''.mmd'' \<and>
   svg_path ''./docs.mmd/flow.mmd'' = ''./docs.svg/flow.svg'' \<and>
   svg_path ''./docs.mmd/flow.mmd'' \<noteq> ''./docs.mmd/flow.svg''"
  by code_simp

text \<open>
  C1. The output file whose existence and age decide the verdict is the path computed as
  above, with every occurrence of \<open>.mmd\<close> replaced. For the source
  \<open>./docs.mmd/flow.mmd\<close>, which discovery finds, the output \<open>./docs.mmd/flow.svg\<close>
  exists and is older than the source; the path looked for is \<open>./docs.svg/flow.svg\<close>,
  which does not exist, and the verdict is \<open>Missing\<close>, not \<open>Outdated\<close>.
\<close>

theorem missing_verdict_beside_existing_output:
  "find_mmd_files nested_world ''.'' = [''./docs.mmd/flow.mmd''] \<and>
   w_stat nested_world ''./docs.mmd/flow.mmd'' = Inr 30 \<and>
   w_stat nested_world ''./docs.mmd/flow.svg'' = Inr 20 \<and>
   os_path_exists nested_world ''./docs.mmd/flow.svg'' \<and>
   \<not> os_path_exists nested_world (svg_path ''./docs.mmd/flow.mmd'') \<and>
   needs_generation nested_world ''./docs.mmd/flow.mmd'' = Inr (True, Missing)"
  by code_simp

section \<open>Discovery and the tree\<close>

lemma tree_dirs_prefix:
  "cs \<in> set (tree_dirs chain es) \<Longrightarrow> prefix chain cs"
  "cs \<in> set (tree_subdirs chain es) \<Longrightarrow> prefix chain cs"
proof (induction chain es and chain es arbitrary: cs and cs rule: tree_dirs_tree_subdirs.induct)
  case (1 chain es)
  then show ?case by auto
next
  case (2 chain)
  then show ?case by simp
next
  case (3 chain name n es)
  then show ?case by (auto split: node.splits dest: append_prefixD)
qed

lemma tree_dirs_not_kept:
  assumes "\<not> keep name" and "cs \<in> set (tree_dirs (chain @ [name]) sub)"
  shows "\<not> list_all keep cs"
proof -
  from tree_dirs_prefix(1)[OF assms(2)] have "name \<in> set cs" by (auto simp: prefix_def)
  with assms(1) show ?thesis by (auto simp: list_all_iff)
qed

text \<open>
  The directories \<open>os.walk\<close> scans under pruning are the directories of the tree whose
  chain of names passes the test throughout, in the same order.
\<close>

lemma walk_roots:
  "list_all keep chain \<Longrightarrow> map fst (os_walk keep (os_path_join_all r chain) es) =
     map (os_path_join_all r) (filter (list_all keep) (tree_dirs chain es))"
  "list_all keep chain \<Longrightarrow> map fst (os_walk_subdirs keep (os_path_join_all r chain) es) =
     map (os_path_join_all r) (filter (list_all keep) (tree_subdirs chain es))"
proof (induction chain es and chain es rule: tree_dirs_tree_subdirs.induct)
  case (1 chain es)
  then show ?case by simp
next
  case (2 chain)
  then show ?case by simp
next
  case (3 chain name n es)
  show ?case
  proof (cases n)
    case File
    with 3 show ?thesis by simp
  next
    case (Dir sub)
    show ?thesis
    proof (cases "keep name")
      case True
      with 3 Dir show ?thesis by (simp add: os_path_join_all_def)
    next
      case False
      have "filter (list_all keep) (tree_dirs (chain @ [name]) sub) = []"
        unfolding filter_empty_conv using tree_dirs_not_kept[of keep name, OF False] by blast
      with 3 Dir False show ?thesis by simp
    qed
  next
    case DirLink
    with 3 show ?thesis by simp
  qed
qed

lemma mmd_in_walk_simps:
  "mmd_in_walk [] = []"
  "mmd_in_walk ((d, ds, files) # ts) =
     map (os_path_join d) (filter (\<lambda>file. str_endswith file ''.mmd'') files) @ mmd_in_walk ts"
  "mmd_in_walk (ts @ ts') = mmd_in_walk ts @ mmd_in_walk ts'"
  by (simp_all add: mmd_in_walk_def)

lemma tree_files_prefix:
  "(cs, f) \<in> set (tree_files chain es) \<Longrightarrow> prefix chain cs"
  "(cs, f) \<in> set (tree_subfiles chain es) \<Longrightarrow> prefix chain cs"
proof (induction chain es and chain es arbitrary: cs f and cs f rule: tree_files_tree_subfiles.induct)
  case (1 chain es)
  then show ?case by auto
next
  case (2 chain)
  then show ?case by simp
next
  case (3 chain name n es)
  then show ?case by (auto split: node.splits dest: append_prefixD)
qed

lemma tree_files_not_kept:
  assumes "\<not> keep name" and "(cs, f) \<in> set (tree_files (chain @ [name]) sub)"
  shows "\<not> list_all keep cs"
proof -
  from tree_files_prefix(1)[OF assms(2)] have "name \<in> set cs" by (auto simp: prefix_def)
  with assms(1) show ?thesis by (auto simp: list_all_iff)
qed

lemma found_simps:
  "map (path_of r) (filter (\<lambda>(cs, f). list_all keep cs \<and> str_endswith f ''.mmd'') (map (Pair chain) fs)) =
     (if list_all keep chain
      then map (os_path_join (os_path_join_all r chain)) (filter (\<lambda>file. str_endswith file ''.mmd'') fs)
      else [])"
  by (induction fs) (simp_all add: path_of_def)

text \<open>
  The paths collected from the walk are the paths of the \<open>.mmd\<close> files of the tree
  whose chain of directory names passes the test throughout.
\<close>

lemma walk_files:
  "list_all keep chain \<Longrightarrow> mmd_in_walk (os_walk keep (os_path_join_all r chain) es) =
     map (path_of r) (filter (\<lambda>(cs, f). list_all keep cs \<and> str_endswith f ''.mmd'') (tree_files chain es))"
  "list_all keep chain \<Longrightarrow> mmd_in_walk (os_walk_subdirs keep (os_path_join_all r chain) es) =
     map (path_of r) (filter (\<lambda>(cs, f). list_all keep cs \<and> str_endswith f ''.mmd'') (tree_subfiles chain es))"
proof (induction chain es and chain es rule: tree_files_tree_subfiles.induct)
  case (1 chain es)
  then show ?case by (simp add: mmd_in_walk_simps found_simps)
next
  case (2 chain)
  then show ?case by (simp add: mmd_in_walk_simps)
next
  case (3 chain name n es)
  show ?case
  proof (cases n)
    case File
    with 3 show ?thesis by (simp add: mmd_in_walk_simps)
  next
    case (Dir sub)
    show ?thesis
    proof (cases "keep name")
      case True
      with 3 Dir show ?thesis
        by (simp add: os_path_join_all_def mmd_in_walk_simps del: os_walk.simps tree_files.simps)
    next
      case False
      have "filter (\<lambda>(cs, f). list_all keep cs \<and> str_endswith f ''.mmd'')
              (tree_files (chain @ [name]) sub) = []"
        unfolding filter_empty_conv
        using tree_files_not_kept[of keep name _ _ chain sub, OF False] by blast
      with 3 Dir False show ?thesis
        by (simp add: mmd_in_walk_simps del: os_walk.simps tree_files.simps)
    qed
  next
    case DirLink
    with 3 show ?thesis by (simp add: mmd_in_walk_simps)
  qed
qed

lemma list_all_not_excluded: "list_all not_excluded = (\<lambda>chain. \<not> inside_excluded chain)"
  by (rule ext) (auto simp: list_all_iff not_excluded_def inside_excluded_def)

lemma walked_dirs:
  "map fst (os_walk not_excluded r es) =
     map (os_path_join_all r) (filter (\<lambda>chain. \<not> inside_excluded chain) (tree_dirs [] es))"
  using walk_roots(1)[of not_excluded "[]" r es]
  by (simp add: os_path_join_all_def list_all_not_excluded inside_excluded_def
      del: os_walk.simps tree_dirs.simps)

lemma found_files:
  "mmd_in_walk (os_walk not_excluded r es) =
     map (path_of r) (filter (\<lambda>(chain, f). \<not> inside_excluded chain \<and> str_endswith f ''.mmd'')
       (tree_files [] es))"
  using walk_files(1)[of not_excluded "[]" r es]
  by (simp add: os_path_join_all_def list_all_not_excluded inside_excluded_def
      del: os_walk.simps tree_files.simps)

section \<open>Paths of well-formed names\<close>

lemma join_wf:
  assumes "a \<noteq> []" "\<not> str_endswith a ''/''" "wf_name b"
  shows "os_path_join a b = a @ CHR ''/'' # b"
    and "\<not> str_endswith (a @ CHR ''/'' # b) ''/''"
proof -
  from assms(3) obtain c cs where b: "b = c # cs" "c \<noteq> CHR ''/''"
    by (cases b) (auto simp: wf_name_def)
  then show "os_path_join a b = a @ CHR ''/'' # b"
    using assms(1,2) by (simp add: os_path_join_def str_startswith_def)
  from assms(3) have ne: "b \<noteq> []" and ns: "CHR ''/'' \<notin> set b" by (simp_all add: wf_name_def)
  from ne have "last b \<in> set b" by (rule last_in_set)
  with ns have lb: "last b \<noteq> CHR ''/''" by auto
  from ne have "last (a @ CHR ''/'' # b) = last b" by simp
  with lb have "last (a @ CHR ''/'' # b) \<noteq> CHR ''/''" by simp
  moreover have "last (zs @ ''/'') = CHR ''/''" for zs by simp
  ultimately show "\<not> str_endswith (a @ CHR ''/'' # b) ''/''"
    unfolding str_endswith_def suffix_def by metis
qed

lemma join_all_wf:
  "a \<noteq> [] \<Longrightarrow> \<not> str_endswith a ''/'' \<Longrightarrow> list_all wf_name cs \<Longrightarrow>
     os_path_join_all a cs = a @ slashed cs \<and> \<not> str_endswith (a @ slashed cs) ''/''"
proof (induction cs arbitrary: a)
  case Nil
  then show ?case by (simp add: os_path_join_all_def slashed_def)
next
  case (Cons c cs)
  from Cons.prems have c: "wf_name c" and cs: "list_all wf_name cs" by simp_all
  from join_wf[OF Cons.prems(1,2) c]
  have j: "os_path_join a c = a @ CHR ''/'' # c" "\<not> str_endswith (a @ CHR ''/'' # c) ''/''"
    by simp_all
  have "a @ CHR ''/'' # c \<noteq> []" by simp
  from Cons.IH[OF this j(2) cs] j(1) show ?case
    by (simp add: os_path_join_all_def slashed_def)
qed

lemma takeWhile_slash:
  "CHR ''/'' \<notin> set z \<Longrightarrow> takeWhile (\<lambda>c. c \<noteq> CHR ''/'') (z @ CHR ''/'' # rest) = z"
  by (induction z) auto

lemma slashed_inject:
  "list_all wf_name xs \<Longrightarrow> list_all wf_name ys \<Longrightarrow> slashed xs = slashed ys \<Longrightarrow> xs = ys"
proof (induction xs arbitrary: ys)
  case Nil
  then show ?case by (cases ys) (simp_all add: slashed_def)
next
  case (Cons x xs)
  from Cons.prems(3) obtain y ys' where ys: "ys = y # ys'"
    by (cases ys) (simp_all add: slashed_def)
  from Cons.prems ys have eq: "x @ slashed xs = y @ slashed ys'"
    by (simp add: slashed_def)
  have tw: "takeWhile (\<lambda>c. c \<noteq> CHR ''/'') (z @ slashed zs) = z" if "wf_name z" for z zs
  proof (cases zs)
    case Nil
    with that show ?thesis by (auto simp: slashed_def wf_name_def)
  next
    case (Cons u us)
    with that show ?thesis by (simp add: slashed_def wf_name_def takeWhile_slash)
  qed
  from Cons.prems ys have "wf_name x" "wf_name y" by simp_all
  with tw[of x xs] tw[of y ys'] eq have xy: "x = y" by simp
  with eq have "slashed xs = slashed ys'" by simp
  with Cons.IH[of ys'] Cons.prems ys have "xs = ys'" by simp
  with xy ys show ?case by simp
qed

lemma path_of_wf:
  assumes "r \<noteq> []" "\<not> str_endswith r ''/''" "list_all wf_name chain" "wf_name f"
  shows "path_of r (chain, f) = r @ slashed (chain @ [f])"
proof -
  from join_all_wf[OF assms(1,2,3)]
  have 1: "os_path_join_all r chain = r @ slashed chain" "\<not> str_endswith (r @ slashed chain) ''/''"
    by simp_all
  have "r @ slashed chain \<noteq> []" using assms(1) by simp
  from join_wf(1)[OF this 1(2) assms(4)] 1(1) show ?thesis
    by (simp add: path_of_def slashed_def)
qed

lemma files_of_simps:
  "files_of [] = []"
  "files_of ((name, n) # es) = (if is_dir n then files_of es else name # files_of es)"
  by (simp_all add: files_of_def)

lemma wf_files_of: "wf_names es \<Longrightarrow> f \<in> set (files_of es) \<Longrightarrow> wf_name f"
proof (induction es)
  case Nil
  then show ?case by (simp add: files_of_simps)
next
  case (Cons e es)
  obtain name n where e: "e = (name, n)" by (cases e)
  with Cons show ?case by (auto simp: files_of_simps split: if_splits)
qed

lemma tree_files_wf:
  "wf_names es \<Longrightarrow> list_all wf_name chain \<Longrightarrow> (cs, f) \<in> set (tree_files chain es) \<Longrightarrow>
     list_all wf_name cs \<and> wf_name f"
  "wf_names es \<Longrightarrow> list_all wf_name chain \<Longrightarrow> (cs, f) \<in> set (tree_subfiles chain es) \<Longrightarrow>
     list_all wf_name cs \<and> wf_name f"
proof (induction chain es and chain es arbitrary: cs f and cs f rule: tree_files_tree_subfiles.induct)
  case (1 chain es)
  then show ?case by (auto dest: wf_files_of)
next
  case (2 chain)
  then show ?case by simp
next
  case (3 chain name n es)
  then show ?case by (cases n) auto
qed

lemma tree_dirs_wf:
  "wf_names es \<Longrightarrow> list_all wf_name chain \<Longrightarrow> cs \<in> set (tree_dirs chain es) \<Longrightarrow>
     list_all wf_name cs"
  "wf_names es \<Longrightarrow> list_all wf_name chain \<Longrightarrow> cs \<in> set (tree_subdirs chain es) \<Longrightarrow>
     list_all wf_name cs"
proof (induction chain es and chain es arbitrary: cs and cs rule: tree_dirs_tree_subdirs.induct)
  case (1 chain es)
  then show ?case by auto
next
  case (2 chain)
  then show ?case by simp
next
  case (3 chain name n es)
  then show ?case by (cases n) auto
qed

text \<open>With well-formed names two entries of the tree with the same path have the same chain.\<close>

lemma path_of_inject:
  assumes "wf_names es" "r \<noteq> []" "\<not> str_endswith r ''/''"
    and "(chain, f) \<in> set (tree_files [] es)" "(chain', f') \<in> set (tree_files [] es)"
    and "path_of r (chain, f) = path_of r (chain', f')"
  shows "chain = chain' \<and> f = f'"
proof -
  from tree_files_wf(1)[OF assms(1) _ assms(4)] have 1: "list_all wf_name chain" "wf_name f" by simp_all
  from tree_files_wf(1)[OF assms(1) _ assms(5)] have 2: "list_all wf_name chain'" "wf_name f'" by simp_all
  from path_of_wf[OF assms(2,3) 1] path_of_wf[OF assms(2,3) 2] assms(6)
  have "slashed (chain @ [f]) = slashed (chain' @ [f'])" by simp
  with slashed_inject[of "chain @ [f]" "chain' @ [f']"] 1 2 show ?thesis by simp
qed

lemma dir_path_inject:
  assumes "wf_names es" "r \<noteq> []" "\<not> str_endswith r ''/''"
    and "chain \<in> set (tree_dirs [] es)" "chain' \<in> set (tree_dirs [] es)"
    and "os_path_join_all r chain = os_path_join_all r chain'"
  shows "chain = chain'"
proof -
  from tree_dirs_wf(1)[OF assms(1) _ assms(4)] have 1: "list_all wf_name chain" by simp
  from tree_dirs_wf(1)[OF assms(1) _ assms(5)] have 2: "list_all wf_name chain'" by simp
  from join_all_wf[OF assms(2,3) 1] join_all_wf[OF assms(2,3) 2] assms(6)
  have "slashed chain = slashed chain'" by simp
  with slashed_inject 1 2 show ?thesis by blast
qed

section \<open>Exclusion of directories\<close>

lemma find_mmd_files_Some:
  "w_scandir w r = Some es \<Longrightarrow> find_mmd_files w r = sort (mmd_in_walk (os_walk not_excluded r es))"
  by (simp add: find_mmd_files_def os_walk_path_def)

text \<open>
  C5. With the denylist \<open>.git\<close>, \<open>.venv\<close>, \<open>__pycache__\<close>, \<open>node_modules\<close>: the
  directories the walk scans are exactly the directories of the tree with no denylisted
  name on the chain leading to them, and the result of discovery is the sorted list of
  the paths of the \<open>.mmd\<close> files with no denylisted name on their chain. With
  well-formed names, the path of a file below a denylisted directory, at any depth, is
  not in the result, and no directory at or below a denylisted one is scanned.
\<close>

theorem excluded_dirs_never_walked:
  assumes "w_scandir w r = Some es"
  shows "map fst (os_walk_path w not_excluded r) =
           map (os_path_join_all r) (filter (\<lambda>chain. \<not> inside_excluded chain) (tree_dirs [] es)) \<and>
         find_mmd_files w r =
           sort (map (path_of r)
             (filter (\<lambda>(chain, f). \<not> inside_excluded chain \<and> str_endswith f ''.mmd'')
               (tree_files [] es))) \<and>
         (wf_names es \<and> r \<noteq> [] \<and> \<not> str_endswith r ''/'' \<longrightarrow>
            (\<forall>(chain, f) \<in> set (tree_files [] es).
               inside_excluded chain \<longrightarrow> path_of r (chain, f) \<notin> set (find_mmd_files w r)) \<and>
            (\<forall>chain \<in> set (tree_dirs [] es).
               inside_excluded chain \<longrightarrow>
                 os_path_join_all r chain \<notin> fst ` set (os_walk_path w not_excluded r)))"
proof (intro conjI impI)
  show dirs: "map fst (os_walk_path w not_excluded r) =
      map (os_path_join_all r) (filter (\<lambda>chain. \<not> inside_excluded chain) (tree_dirs [] es))"
    using assms walked_dirs[of r es] by (simp add: os_walk_path_def del: os_walk.simps tree_dirs.simps)
  show files: "find_mmd_files w r =
      sort (map (path_of r)
        (filter (\<lambda>(chain, f). \<not> inside_excluded chain \<and> str_endswith f ''.mmd'')
          (tree_files [] es)))"
    using find_mmd_files_Some[OF assms] found_files[of r es] by simp
  assume wf: "wf_names es \<and> r \<noteq> [] \<and> \<not> str_endswith r ''/''"
  show "\<forall>(chain, f) \<in> set (tree_files [] es).
      inside_excluded chain \<longrightarrow> path_of r (chain, f) \<notin> set (find_mmd_files w r)"
  proof (clarify)
    fix chain f
    assume in_tree: "(chain, f) \<in> set (tree_files [] es)" and ex: "inside_excluded chain"
      and found: "path_of r (chain, f) \<in> set (find_mmd_files w r)"
    from found files obtain chain' f' where
      other: "(chain', f') \<in> set (tree_files [] es)" "\<not> inside_excluded chain'"
      and eq: "path_of r (chain, f) = path_of r (chain', f')"
      by (auto simp del: tree_files.simps)
    from path_of_inject[OF _ _ _ in_tree other(1) eq] wf have "chain = chain'" by simp
    with ex other(2) show False by simp
  qed
  show "\<forall>chain \<in> set (tree_dirs [] es).
      inside_excluded chain \<longrightarrow> os_path_join_all r chain \<notin> fst ` set (os_walk_path w not_excluded r)"
  proof (clarify)
    fix chain a b
    assume in_tree: "chain \<in> set (tree_dirs [] es)" and ex: "inside_excluded chain"
      and walked: "(a, b) \<in> set (os_walk_path w not_excluded r)"
      and a: "os_path_join_all r chain = fst (a, b)"
    from walked have "a \<in> set (map fst (os_walk_path w not_excluded r))" by force
    with dirs obtain chain' where
      other: "chain' \<in> set (tree_dirs [] es)" "\<not> inside_excluded chain'"
      and eq: "a = os_path_join_all r chain'"
      by (auto simp del: tree_dirs.simps)
    from a eq have "os_path_join_all r chain = os_path_join_all r chain'" by simp
    from dir_path_inject[OF _ _ _ in_tree other(1) this] wf have "chain = chain'" by simp
    with ex other(2) show False by simp
  qed
qed

theorem excluded_dirs_never_walked_witness:
  "w_scandir sample_world ''.'' = Some sample_tree \<and>
   wf_names sample_tree \<and>
   ([''node_modules'', ''pkg''], ''x.mmd'') \<in> set (tree_files [] sample_tree) \<and>
   inside_excluded [''node_modules'', ''pkg''] \<and>
   ''./node_modules/pkg/x.mmd'' \<notin> set (find_mmd_files sample_world ''.'') \<and>
   ([''docs'', ''.git''], ''h.mmd'') \<in> set (tree_files [] sample_tree) \<and>
   inside_excluded [''docs'', ''.git''] \<and>
   ''./docs/.git/h.mmd'' \<notin> set (find_mmd_files sample_world ''.'') \<and>
   [''node_modules'', ''pkg''] \<in> set (tree_dirs [] sample_tree) \<and>
   ''./node_modules/pkg'' \<notin> fst ` set (os_walk_path sample_world not_excluded ''.'') \<and>
   map fst (os_walk_path sample_world not_excluded ''.'') = [''.'', ''./docs''] \<and>
   find_mmd_files sample_world ''.'' = [''./a.mmd'', ''./b.mmd'', ''./docs/a.mmd'']"
proof -
  have sc: "w_scandir sample_world ''.'' = Some sample_tree"
    by (simp add: sample_world_def)
  have wf: "wf_names sample_tree" by code_simp
  have root: "''.'' \<noteq> []" "\<not> str_endswith ''.'' ''/''" by (simp_all add: str_endswith_def suffix_def)
  have x: "([''node_modules'', ''pkg''], ''x.mmd'') \<in> set (tree_files [] sample_tree)" by code_simp
  have h: "([''docs'', ''.git''], ''h.mmd'') \<in> set (tree_files [] sample_tree)" by code_simp
  have d: "[''node_modules'', ''pkg''] \<in> set (tree_dirs [] sample_tree)" by code_simp
  have ex: "inside_excluded [''node_modules'', ''pkg'']" "inside_excluded [''docs'', ''.git'']"
    by (simp_all add: inside_excluded_def excluded_dirs_def)
  have p: "path_of ''.'' ([''node_modules'', ''pkg''], ''x.mmd'') = ''./node_modules/pkg/x.mmd''"
    "path_of ''.'' ([''docs'', ''.git''], ''h.mmd'') = ''./docs/.git/h.mmd''"
    "os_path_join_all ''.'' [''node_modules'', ''pkg''] = ''./node_modules/pkg''"
    by (code_simp, code_simp, code_simp)
  note inst = excluded_dirs_never_walked[OF sc]
  from inst wf root x ex(1) have 1: "path_of ''.'' ([''node_modules'', ''pkg''], ''x.mmd'')
      \<notin> set (find_mmd_files sample_world ''.'')" by blast
  from inst wf root h ex(2) have 2: "path_of ''.'' ([''docs'', ''.git''], ''h.mmd'')
      \<notin> set (find_mmd_files sample_world ''.'')" by blast
  from inst wf root d ex(1) have 3: "os_path_join_all ''.'' [''node_modules'', ''pkg'']
      \<notin> fst ` set (os_walk_path sample_world not_excluded ''.'')" by blast
  have 4: "map fst (os_walk_path sample_world not_excluded ''.'') = [''.'', ''./docs'']" by code_simp
  have 5: "find_mmd_files sample_world ''.'' = [''./a.mmd'', ''./b.mmd'', ''./docs/a.mmd'']" by code_simp
  from sc wf x h d ex 1 2 3 4 5 show ?thesis unfolding p by blast
qed

section \<open>Order of the result\<close>

lemma mset_mmd_in_walk:
  "mset (mmd_in_walk (os_walk keep d es)) =
     image_mset (os_path_join d) (filter_mset (\<lambda>file. str_endswith file ''.mmd'') (mset (files_of es)))
     + mset (mmd_in_walk (os_walk_subdirs keep d es))"
  by (simp add: mmd_in_walk_simps)

text \<open>Listing the entries of directories in another order changes the files found only in their order.\<close>

lemma same_entries_mset:
  "same_entries es es' \<Longrightarrow>
     mset (files_of es) = mset (files_of es') \<and>
     (\<forall>d. mset (mmd_in_walk (os_walk_subdirs keep d es)) =
          mset (mmd_in_walk (os_walk_subdirs keep d es')))"
  "same_node n n' \<Longrightarrow>
     is_dir n = is_dir n' \<and>
     (\<forall>d name. mset (mmd_in_walk (case n of Dir sub \<Rightarrow>
                   if keep name then os_walk keep (os_path_join d name) sub else [] | _ \<Rightarrow> [])) =
                mset (mmd_in_walk (case n' of Dir sub \<Rightarrow>
                   if keep name then os_walk keep (os_path_join d name) sub else [] | _ \<Rightarrow> [])))"
proof (induction rule: same_entries_same_node.inducts)
  case same_Nil
  show ?case by simp
next
  case (same_Cons n n' es es' a)
  then show ?case by (simp add: files_of_def mmd_in_walk_simps)
next
  case (same_swap x y es)
  show ?case by (cases x; cases y) (simp add: files_of_def mmd_in_walk_simps)
next
  case (same_trans es es' es'')
  then show ?case by simp
next
  case same_File
  show ?case by simp
next
  case same_DirLink
  show ?case by simp
next
  case (same_Dir es es')
  then show ?case by (simp add: mset_mmd_in_walk del: os_walk.simps)
qed

lemma same_entries_sort:
  assumes "same_entries es es'"
  shows "sort (mmd_in_walk (os_walk keep d es)) = sort (mmd_in_walk (os_walk keep d es'))"
proof -
  have "mset (mmd_in_walk (os_walk keep d es)) = mset (mmd_in_walk (os_walk keep d es'))"
    using same_entries_mset(1)[OF assms, of keep] by (simp add: mset_mmd_in_walk del: os_walk.simps)
  then show ?thesis by (metis properties_for_sort sorted_sort mset_sort)
qed

lemma same_entries_refl_if:
  "(\<And>e. e \<in> set es \<Longrightarrow> same_node (snd e) (snd e)) \<Longrightarrow> same_entries es es"
proof (induction es)
  case Nil
  show ?case by (rule same_Nil)
next
  case (Cons e es)
  obtain a m where e: "e = (a, m)" by (cases e)
  have "same_node m m" using Cons.prems[of e] e by simp
  moreover have "same_entries es es" using Cons by simp
  ultimately show ?case unfolding e by (rule same_Cons)
qed

lemma same_node_refl: "same_node n n"
proof (induction n)
  case File
  show ?case by (rule same_File)
next
  case (Dir es)
  have "same_entries es es"
  proof (rule same_entries_refl_if)
    fix e assume "e \<in> set es"
    with Dir[of e "snd e"] show "same_node (snd e) (snd e)" by (cases e) simp
  qed
  then show ?case by (rule same_Dir)
next
  case DirLink
  show ?case by (rule same_DirLink)
qed

lemma same_entries_refl: "same_entries es es"
  by (rule same_entries_refl_if) (rule same_node_refl)

text \<open>
  C6. The result of discovery is sorted in the lexicographic order of strings and holds
  the matching paths collected by the walk, each as often as collected. It is determined
  by the tree: a second run on a world with the same tree under the root returns the same
  list, also when the directories list their entries in another order.
\<close>

theorem discovery_sorted_and_deterministic:
  "sorted (find_mmd_files w r) \<and>
   mset (find_mmd_files w r) = mset (mmd_in_walk (os_walk_path w not_excluded r)) \<and>
   (\<forall>w' :: world. w_scandir w' r = w_scandir w r \<longrightarrow> find_mmd_files w' r = find_mmd_files w r) \<and>
   (\<forall>(w' :: world) es es'. w_scandir w r = Some es \<and> w_scandir w' r = Some es' \<and> same_entries es es' \<longrightarrow>
      find_mmd_files w' r = find_mmd_files w r)"
proof (intro conjI allI impI)
  show "sorted (find_mmd_files w r)" by (simp add: find_mmd_files_def)
  show "mset (find_mmd_files w r) = mset (mmd_in_walk (os_walk_path w not_excluded r))"
    by (simp add: find_mmd_files_def)
next
  fix w' :: world assume "w_scandir w' r = w_scandir w r"
  then show "find_mmd_files w' r = find_mmd_files w r"
    by (simp add: find_mmd_files_def os_walk_path_def)
next
  fix w' :: world and es es'
  assume a: "w_scandir w r = Some es \<and> w_scandir w' r = Some es' \<and> same_entries es es'"
  then have "sort (mmd_in_walk (os_walk not_excluded r es')) = sort (mmd_in_walk (os_walk not_excluded r es))"
    using same_entries_sort[of es es' not_excluded r] by simp
  with a show "find_mmd_files w' r = find_mmd_files w r"
    by (simp add: find_mmd_files_Some)
qed

lemma sample_trees_same: "same_entries sample_tree sample_tree_reordered"
proof -
  let ?nm = "(''node_modules'', Dir [(''pkg'', Dir [(''x.mmd'', File)])])"
  let ?b = "(''b.mmd'', File)"
  let ?a = "(''a.mmd'', File)"
  let ?git = "(''.git'', Dir [(''h.mmd'', File)])"
  let ?notes = "(''notes.txt'', File)"
  have docs: "same_node (Dir [?a, ?git, ?notes]) (Dir [?git, ?a, ?notes])"
    by (rule same_Dir) (rule same_swap)
  have 1: "same_entries [?b, ?nm, (''docs'', Dir [?a, ?git, ?notes]), ?a]
             [?nm, ?b, (''docs'', Dir [?a, ?git, ?notes]), ?a]"
    by (rule same_swap)
  have 2: "same_entries [?nm, ?b, (''docs'', Dir [?a, ?git, ?notes]), ?a]
             [?nm, ?b, (''docs'', Dir [?git, ?a, ?notes]), ?a]"
    by (intro same_Cons same_node_refl same_entries_refl docs)
  from same_trans[OF 1 2] show ?thesis
    by (simp add: sample_tree_def sample_tree_reordered_def)
qed

theorem discovery_sorted_and_deterministic_witness:
  "w_scandir sample_world ''.'' = Some sample_tree \<and>
   w_scandir (sample_world\<lparr>w_scandir := [''.'' \<mapsto> sample_tree_reordered]\<rparr>) ''.'' = Some sample_tree_reordered \<and>
   same_entries sample_tree sample_tree_reordered \<and>
   find_mmd_files (sample_world\<lparr>w_scandir := [''.'' \<mapsto> sample_tree_reordered]\<rparr>) ''.'' =
     find_mmd_files sample_world ''.'' \<and>
   w_scandir (sample_world\<lparr>w_home := ''/root''\<rparr>) ''.'' = w_scandir sample_world ''.'' \<and>
   find_mmd_files (sample_world\<lparr>w_home := ''/root''\<rparr>) ''.'' = find_mmd_files sample_world ''.'' \<and>
   sorted (find_mmd_files sample_world ''.'') \<and>
   find_mmd_files sample_world ''.'' = [''./a.mmd'', ''./b.mmd'', ''./docs/a.mmd'']"
proof -
  let ?w' = "sample_world\<lparr>w_scandir := [''.'' \<mapsto> sample_tree_reordered]\<rparr>"
  let ?w'' = "sample_world\<lparr>w_home := ''/root''\<rparr>"
  have 1: "w_scandir sample_world ''.'' = Some sample_tree" by (simp add: sample_world_def)
  have 2: "w_scandir ?w' ''.'' = Some sample_tree_reordered" by simp
  have 3: "w_scandir ?w'' ''.'' = w_scandir sample_world ''.''" by simp
  note inst = discovery_sorted_and_deterministic[of sample_world "''.''"]
  from inst 1 2 sample_trees_same have 4: "find_mmd_files ?w' ''.'' = find_mmd_files sample_world ''.''"
    by blast
  from inst 3 have 5: "find_mmd_files ?w'' ''.'' = find_mmd_files sample_world ''.''" by blast
  from inst have 6: "sorted (find_mmd_files sample_world ''.'')" by blast
  have 7: "find_mmd_files sample_world ''.'' = [''./a.mmd'', ''./b.mmd'', ''./docs/a.mmd'']" by code_simp
  from 1 2 3 4 5 6 7 sample_trees_same show ?thesis by blast
qed

section \<open>Child processes of the run\<close>

lemma subprocess_run_spawned:
  "spawned (fst (subprocess_run exec w args env)) = spawned w @ [(args, env)]"
  "snd (subprocess_run exec w args env) = snd (exec w args env)"
  by (simp_all add: subprocess_run_def split: prod.splits)

lemma check_mmdc_spawned:
  "spawned (fst (check_mmdc exec w)) = spawned w @ [([''mmdc'', ''--version''], w_environ w)]"
proof -
  obtain w' r where sr: "subprocess_run exec w [''mmdc'', ''--version''] (w_environ w) = (w', r)"
    by (cases "subprocess_run exec w [''mmdc'', ''--version''] (w_environ w)")
  from subprocess_run_spawned(1)[of exec w "[''mmdc'', ''--version'']" "w_environ w"] sr
  have "spawned w' = spawned w @ [([''mmdc'', ''--version''], w_environ w)]" by simp
  with sr show ?thesis
    by (simp add: check_mmdc_def split: proc_result.splits py_error.splits)
qed

lemma check_mmdc_result:
  "snd (check_mmdc exec w) =
     (case snd (exec w [''mmdc'', ''--version''] (w_environ w)) of
        Completed returncode out err \<Rightarrow> Inr (returncode = 0)
      | Launch_failed FileNotFoundError \<Rightarrow> Inr False
      | Launch_failed e \<Rightarrow> Inl e
      | Undecodable returncode \<Rightarrow> Inl UnicodeDecodeError)"
proof -
  obtain w' r where sr: "subprocess_run exec w [''mmdc'', ''--version''] (w_environ w) = (w', r)"
    by (cases "subprocess_run exec w [''mmdc'', ''--version''] (w_environ w)")
  from subprocess_run_spawned(2)[of exec w "[''mmdc'', ''--version'']" "w_environ w"] sr
  have "snd (exec w [''mmdc'', ''--version''] (w_environ w)) = r" by simp
  with sr show ?thesis
    by (simp add: check_mmdc_def split: proc_result.splits py_error.splits)
qed

lemma print_fields [simp]:
  "the_world (print st line) = the_world st"
  "generated (print st line) = generated st"
  "updated (print st line) = updated st"
  "skipped (print st line) = skipped st"
  "errors (print st line) = errors st"
  "stdout (print st line) = stdout st @ [line]"
  by (simp_all add: print_def)

lemma print_all_fields [simp]:
  "the_world (print_all st lines) = the_world st"
  "generated (print_all st lines) = generated st"
  "updated (print_all st lines) = updated st"
  "skipped (print_all st lines) = skipped st"
  "errors (print_all st lines) = errors st"
  "stdout (print_all st lines) = stdout st @ lines"
  unfolding print_all_def by (induction lines arbitrary: st) simp_all

lemma main_unavailable:
  assumes "snd (check_mmdc exec w) = Inr False"
  shows "main exec w = sys_exit (print_all (initial_state (fst (check_mmdc exec w))) install_message) 1"
  using assms by (cases "check_mmdc exec w") (simp add: main_def)

section \<open>Availability check\<close>

text \<open>
  C4, as stated, fails where what \<open>mmdc --version\<close> writes cannot be decoded as text.
  A child that starts and ends with return code 0 does not make the check return true:
  the check raises \<open>UnicodeDecodeError\<close>. And a child that ends with return code 1 is
  not treated as unavailable: the run dies of the same exception and prints no install
  instructions.
\<close>

theorem undecodable_probe_output_raises:
  "snd (undecodable_exec 0 sample_world [''mmdc'', ''--version''] (w_environ sample_world)) = Undecodable 0 \<and>
   snd (check_mmdc (undecodable_exec 0) sample_world) = Inl UnicodeDecodeError \<and>
   snd (check_mmdc (undecodable_exec 0) sample_world) \<noteq> Inr True \<and>
   snd (undecodable_exec 1 sample_world [''mmdc'', ''--version''] (w_environ sample_world)) = Undecodable 1 \<and>
   snd (check_mmdc (undecodable_exec 1) sample_world) \<noteq> Inr False \<and>
   uncaught (main (undecodable_exec 1) sample_world) = Some UnicodeDecodeError \<and>
   stdout (final (main (undecodable_exec 1) sample_world)) = []"
  by code_simp

text \<open>
  C4, amended. \<open>check_mmdc\<close> returns true exactly when the child \<open>mmdc --version\<close>
  starts, completes with return code 0 and its output decodes as text. It returns false
  exactly when the executable is not found or the child completes, its output decoded,
  with another return code, the two cases alike. When it returns false the run prints
  the install instructions, for the renderer and for the headless browser it needs, and
  nothing else, exits with status 1, and ends in the world the check left, the check
  being its only child process.
\<close>

theorem check_mmdc_gates_the_run:
  "(snd (check_mmdc exec w) = Inr True \<longleftrightarrow>
      (\<exists>out err. snd (exec w [''mmdc'', ''--version''] (w_environ w)) = Completed 0 out err)) \<and>
   (snd (check_mmdc exec w) = Inr False \<longleftrightarrow>
      snd (exec w [''mmdc'', ''--version''] (w_environ w)) = Launch_failed FileNotFoundError \<or>
      (\<exists>returncode out err. returncode \<noteq> 0 \<and>
         snd (exec w [''mmdc'', ''--version''] (w_environ w)) = Completed returncode out err)) \<and>
   (snd (check_mmdc exec w) = Inr False \<longrightarrow>
      exit_code (main exec w) = 1 \<and>
      uncaught (main exec w) = None \<and>
      stdout (final (main exec w)) =
        [''Error: mermaid-cli (mmdc) not found.'',
         ''Install it with:'',
         ''  macOS: brew install mermaid-cli'',
         ''  Other: npm install -g @mermaid-js/mermaid-cli'',
         [],
         ''Note: mermaid-cli requires Chrome/Chromium. After installation, run:'',
         ''  npx puppeteer browsers install chrome-headless-shell''] \<and>
      the_world (final (main exec w)) = fst (check_mmdc exec w) \<and>
      spawned (the_world (final (main exec w))) = spawned w @ [([''mmdc'', ''--version''], w_environ w)])"
proof (intro conjI impI)
  show "snd (check_mmdc exec w) = Inr True \<longleftrightarrow>
      (\<exists>out err. snd (exec w [''mmdc'', ''--version''] (w_environ w)) = Completed 0 out err)"
    unfolding check_mmdc_result by (auto split: proc_result.splits py_error.splits)
  show "snd (check_mmdc exec w) = Inr False \<longleftrightarrow>
      snd (exec w [''mmdc'', ''--version''] (w_environ w)) = Launch_failed FileNotFoundError \<or>
      (\<exists>returncode out err. returncode \<noteq> 0 \<and>
         snd (exec w [''mmdc'', ''--version''] (w_environ w)) = Completed returncode out err)"
    unfolding check_mmdc_result by (auto split: proc_result.splits py_error.splits)
next
  assume "snd (check_mmdc exec w) = Inr False"
  from main_unavailable[OF this]
  have m: "main exec w = sys_exit (print_all (initial_state (fst (check_mmdc exec w))) install_message) 1" .
  show "exit_code (main exec w) = 1" by (simp add: m sys_exit_def)
  show "uncaught (main exec w) = None" by (simp add: m sys_exit_def)
  show "stdout (final (main exec w)) =
        [''Error: mermaid-cli (mmdc) not found.'',
         ''Install it with:'',
         ''  macOS: brew install mermaid-cli'',
         ''  Other: npm install -g @mermaid-js/mermaid-cli'',
         [],
         ''Note: mermaid-cli requires Chrome/Chromium. After installation, run:'',
         ''  npx puppeteer browsers install chrome-headless-shell'']"
    by (simp add: m sys_exit_def initial_state_def install_message_def)
  show w: "the_world (final (main exec w)) = fst (check_mmdc exec w)"
    by (simp add: m sys_exit_def initial_state_def)
  show "spawned (the_world (final (main exec w))) = spawned w @ [([''mmdc'', ''--version''], w_environ w)]"
    unfolding w by (rule check_mmdc_spawned)
qed

lemma absent_exec_check: "snd (check_mmdc absent_exec sample_world) = Inr False"
  by (simp add: check_mmdc_result absent_exec_def)

lemma broken_exec_check: "snd (check_mmdc broken_exec sample_world) = Inr False"
  by (simp add: check_mmdc_result broken_exec_def)

theorem check_mmdc_gates_the_run_witness:
  "snd (check_mmdc absent_exec sample_world) = Inr False \<and>
   exit_code (main absent_exec sample_world) = 1 \<and>
   uncaught (main absent_exec sample_world) = None \<and>
   stdout (final (main absent_exec sample_world)) =
        [''Error: mermaid-cli (mmdc) not found.'',
         ''Install it with:'',
         ''  macOS: brew install mermaid-cli'',
         ''  Other: npm install -g @mermaid-js/mermaid-cli'',
         [],
         ''Note: mermaid-cli requires Chrome/Chromium. After installation, run:'',
         ''  npx puppeteer browsers install chrome-headless-shell''] \<and>
   map fst (spawned (the_world (final (main absent_exec sample_world)))) = [[''mmdc'', ''--version'']] \<and>
   snd (check_mmdc broken_exec sample_world) = Inr False \<and>
   exit_code (main broken_exec sample_world) = 1 \<and>
   stdout (final (main broken_exec sample_world)) = stdout (final (main absent_exec sample_world)) \<and>
   snd (check_mmdc sample_exec sample_world) = Inr True"
proof -
  have s: "spawned sample_world = []" by (simp add: sample_world_def)
  note absent = check_mmdc_gates_the_run[of absent_exec sample_world]
  from absent absent_exec_check have a:
    "exit_code (main absent_exec sample_world) = 1"
    "uncaught (main absent_exec sample_world) = None"
    "stdout (final (main absent_exec sample_world)) =
        [''Error: mermaid-cli (mmdc) not found.'',
         ''Install it with:'',
         ''  macOS: brew install mermaid-cli'',
         ''  Other: npm install -g @mermaid-js/mermaid-cli'',
         [],
         ''Note: mermaid-cli requires Chrome/Chromium. After installation, run:'',
         ''  npx puppeteer browsers install chrome-headless-shell'']"
    by blast+
  from absent absent_exec_check have
    "spawned (the_world (final (main absent_exec sample_world))) =
       spawned sample_world @ [([''mmdc'', ''--version''], w_environ sample_world)]"
    by blast
  with s have sp: "map fst (spawned (the_world (final (main absent_exec sample_world)))) = [[''mmdc'', ''--version'']]"
    by simp
  note broken = check_mmdc_gates_the_run[of broken_exec sample_world]
  from broken broken_exec_check have b:
    "exit_code (main broken_exec sample_world) = 1"
    "stdout (final (main broken_exec sample_world)) =
        [''Error: mermaid-cli (mmdc) not found.'',
         ''Install it with:'',
         ''  macOS: brew install mermaid-cli'',
         ''  Other: npm install -g @mermaid-js/mermaid-cli'',
         [],
         ''Note: mermaid-cli requires Chrome/Chromium. After installation, run:'',
         ''  npx puppeteer browsers install chrome-headless-shell'']"
    by blast+
  from a(3) b(2) have same: "stdout (final (main broken_exec sample_world)) =
      stdout (final (main absent_exec sample_world))" by simp
  have ok: "snd (check_mmdc sample_exec sample_world) = Inr True"
    using check_mmdc_gates_the_run[of sample_exec sample_world]
    by (simp add: sample_exec_def)
  show ?thesis
    by (intro conjI) (rule absent_exec_check a sp broken_exec_check b(1) same ok)+
qed

section \<open>The loop over the files\<close>

lemma needs_generation_True:
  "needs_generation w f = Inr (True, v) \<Longrightarrow> v = Missing \<or> v = Outdated"
  by (auto simp: needs_generation_def Let_def split: if_splits sum.splits)

lemma needs_generation_False:
  "needs_generation w f = Inr (False, v) \<Longrightarrow> v = Up_to_date"
  by (auto simp: needs_generation_def Let_def split: if_splits sum.splits)

lemma generate_svg_spawned:
  "spawned (fst (generate_svg exec w f)) =
     spawned w @ [([''mmdc'', ''-i'', f, ''-o'', svg_path f], child_env (w_environ w) (find_chrome_path w))]"
proof -
  let ?args = "[''mmdc'', ''-i'', f, ''-o'', svg_path f]"
  let ?env = "child_env (w_environ w) (find_chrome_path w)"
  obtain w' r where sr: "subprocess_run exec w ?args ?env = (w', r)"
    by (cases "subprocess_run exec w ?args ?env")
  from subprocess_run_spawned(1)[of exec w ?args ?env] sr
  have "spawned w' = spawned w @ [(?args, ?env)]" by simp
  with sr show ?thesis
    by (simp add: generate_svg_def Let_def split: proc_result.splits)
qed

lemma generate_svg_result:
  "snd (generate_svg exec w f) =
     (case snd (exec w [''mmdc'', ''-i'', f, ''-o'', svg_path f]
                  (child_env (w_environ w) (find_chrome_path w))) of
        Completed returncode out err \<Rightarrow>
          if returncode = 0 then Inr (True, None) else Inr (False, Some err)
      | Launch_failed e \<Rightarrow> Inl e
      | Undecodable returncode \<Rightarrow> Inl UnicodeDecodeError)"
proof -
  let ?args = "[''mmdc'', ''-i'', f, ''-o'', svg_path f]"
  let ?env = "child_env (w_environ w) (find_chrome_path w)"
  obtain w' r where sr: "subprocess_run exec w ?args ?env = (w', r)"
    by (cases "subprocess_run exec w ?args ?env")
  from subprocess_run_spawned(2)[of exec w ?args ?env] sr
  have "snd (exec w ?args ?env) = r" by simp
  with sr show ?thesis
    by (simp add: generate_svg_def Let_def split: proc_result.splits)
qed

text \<open>What one pass of the loop does, by the verdict and the outcome of the render.\<close>

lemma process_file_raises:
  "needs_generation (the_world st) f = Inl e \<Longrightarrow> process_file exec st f = (st, Some e)"
  by (simp add: process_file_def)

lemma process_file_skips:
  "needs_generation (the_world st) f = Inr (False, v) \<Longrightarrow>
     process_file exec st f = (st\<lparr>skipped := skipped st + 1\<rparr>, None)"
  by (simp add: process_file_def)

lemma announce_fields [simp]:
  "the_world (announce st v f) = the_world st"
  "generated (announce st v f) = generated st"
  "updated (announce st v f) = updated st"
  "skipped (announce st v f) = skipped st"
  "errors (announce st v f) = errors st"
  by (cases v; simp add: announce_def)+

lemma process_file_render_raises:
  assumes "needs_generation (the_world st) f = Inr (True, v)"
    and "generate_svg exec (the_world st) f = (w', Inl e)"
  shows "process_file exec st f = ((announce st v f)\<lparr>the_world := w'\<rparr>, Some e)"
  using assms needs_generation_True[OF assms(1)]
  by (auto simp: process_file_def Let_def announce_def)

lemma process_file_render_ok:
  assumes "needs_generation (the_world st) f = Inr (True, v)"
    and "generate_svg exec (the_world st) f = (w', Inr (True, error))"
  shows "process_file exec st f =
     (case v of
        Missing \<Rightarrow> ((announce st v f)\<lparr>the_world := w', generated := generated st + 1\<rparr>, None)
      | Outdated \<Rightarrow> ((announce st v f)\<lparr>the_world := w', updated := updated st + 1\<rparr>, None)
      | Up_to_date \<Rightarrow> (st, None))"
  using assms needs_generation_True[OF assms(1)]
  by (auto simp: process_file_def Let_def announce_def)

lemma process_file_render_fails:
  assumes "needs_generation (the_world st) f = Inr (True, v)"
    and "generate_svg exec (the_world st) f = (w', Inr (False, error))"
  shows "process_file exec st f =
     ((announce st v f)\<lparr>the_world := w', errors := errors st @ [(f, error)]\<rparr>, None)"
  using assms needs_generation_True[OF assms(1)]
  by (auto simp: process_file_def Let_def announce_def)

lemma process_file_counts:
  assumes "process_file exec st f = (st', exc)"
  shows "generated st \<le> generated st' \<and> updated st \<le> updated st' \<and> skipped st \<le> skipped st' \<and>
         prefix (errors st) (errors st') \<and> (exc = None \<longrightarrow> counted st' = counted st + 1)"
proof (cases "needs_generation (the_world st) f")
  case (Inl e)
  from process_file_raises[OF this, of exec] assms show ?thesis by simp
next
  case (Inr res)
  obtain b v where res: "res = (b, v)" by (cases res)
  show ?thesis
  proof (cases b)
    case False
    from process_file_skips[of st f v exec] Inr res False assms show ?thesis
      by (auto simp: counted_def)
  next
    case True
    with Inr res have ng: "needs_generation (the_world st) f = Inr (True, v)" by simp
    from needs_generation_True[OF ng] have v: "v = Missing \<or> v = Outdated" .
    obtain w' r where g: "generate_svg exec (the_world st) f = (w', r)"
      by (cases "generate_svg exec (the_world st) f")
    show ?thesis
    proof (cases r)
      case (Inl e)
      from process_file_render_raises[OF ng, of exec w' e] g Inl assms show ?thesis by auto
    next
      case (Inr sr)
      obtain success error where sr: "sr = (success, error)" by (cases sr)
      show ?thesis
      proof (cases success)
        case True
        from process_file_render_ok[OF ng, of exec w' error] g Inr sr True assms v show ?thesis
          by (auto simp: counted_def)
      next
        case False
        from process_file_render_fails[OF ng, of exec w' error] g Inr sr False assms show ?thesis
          by (auto simp: counted_def)
      qed
    qed
  qed
qed

lemma process_files_counts:
  "process_files exec st fs = (st', exc) \<Longrightarrow>
     generated st \<le> generated st' \<and> updated st \<le> updated st' \<and> skipped st \<le> skipped st' \<and>
     prefix (errors st) (errors st') \<and> (exc = None \<longrightarrow> counted st' = counted st + int (length fs))"
proof (induction fs arbitrary: st)
  case Nil
  then show ?case by simp
next
  case (Cons f fs)
  obtain st1 e1 where pf: "process_file exec st f = (st1, e1)"
    by (cases "process_file exec st f")
  note one = process_file_counts[OF pf]
  show ?case
  proof (cases e1)
    case (Some e)
    with pf Cons.prems have "st' = st1" "exc = Some e" by simp_all
    with one show ?thesis by simp
  next
    case None
    with pf Cons.prems have "process_files exec st1 fs = (st', exc)" by simp
    from Cons.IH[OF this] one None show ?thesis
      by (auto intro: prefix_order.trans)
  qed
qed

lemma process_files_append:
  "process_files exec st done = (st1, None) \<Longrightarrow>
     process_files exec st (done @ fs) = process_files exec st1 fs"
proof (induction "done" arbitrary: st)
  case Nil
  then show ?case by simp
next
  case (Cons f done')
  obtain st2 e2 where pf: "process_file exec st f = (st2, e2)"
    by (cases "process_file exec st f")
  with Cons.prems have e2: "e2 = None" by (cases e2) auto
  with pf Cons.prems have "process_files exec st2 done' = (st1, None)" by simp
  from Cons.IH[OF this] pf e2 show ?case by simp
qed

section \<open>The report\<close>

lemma print_error_fields [simp]:
  "the_world (print_error st entry) = the_world st"
  "generated (print_error st entry) = generated st"
  "updated (print_error st entry) = updated st"
  "skipped (print_error st entry) = skipped st"
  "errors (print_error st entry) = errors st"
  by (cases entry; simp add: print_error_def Let_def)+

lemma print_error_stdout: "prefix (stdout st) (stdout (print_error st entry))"
  by (cases entry) (simp add: print_error_def Let_def)

lemma foldl_print_error_fields [simp]:
  "the_world (foldl print_error st entries) = the_world st"
  "generated (foldl print_error st entries) = generated st"
  "updated (foldl print_error st entries) = updated st"
  "skipped (foldl print_error st entries) = skipped st"
  "errors (foldl print_error st entries) = errors st"
  by (induction entries arbitrary: st) simp_all

lemma foldl_print_error_stdout: "prefix (stdout st) (stdout (foldl print_error st entries))"
proof (induction entries arbitrary: st)
  case Nil
  show ?case by simp
next
  case (Cons e es)
  from print_error_stdout[of st e] Cons[of "print_error st e"] show ?case
    by (auto intro: prefix_order.trans)
qed

lemma summary_line_cong:
  "generated st' = generated st \<Longrightarrow> updated st' = updated st \<Longrightarrow> skipped st' = skipped st \<Longrightarrow>
     errors st' = errors st \<Longrightarrow> summary_line st' = summary_line st"
  by (simp add: summary_line_def)

lemma report_fields:
  "the_world (final (report st)) = the_world st"
  "generated (final (report st)) = generated st"
  "updated (final (report st)) = updated st"
  "skipped (final (report st)) = skipped st"
  "errors (final (report st)) = errors st"
  "uncaught (report st) = None"
  "exit_code (report st) = (if errors st \<noteq> [] then 1 else 0)"
  by (simp_all add: report_def Let_def sys_exit_def)

lemma report_prints_summary: "summary_line st \<in> set (stdout (final (report st)))"
proof -
  let ?printed = "print st (summary_line st)"
  have 1: "summary_line st \<in> set (stdout ?printed)" by simp
  have 2: "prefix (stdout ?printed) (stdout (final (report st)))"
    using foldl_print_error_stdout[of "print ?printed ([CHR 0x0A] @ ''Errors:'')" "errors st"]
    by (auto simp: report_def Let_def sys_exit_def prefix_def)
  from 1 2 show ?thesis by (auto simp: prefix_def)
qed

section \<open>The whole run\<close>

lemma main_runs_loop:
  assumes "snd (check_mmdc exec w) = Inr True"
    and "find_mmd_files (fst (check_mmdc exec w)) ''.'' \<noteq> []"
  shows "main exec w =
     main_loop exec (loop_start (fst (check_mmdc exec w)) (find_mmd_files (fst (check_mmdc exec w)) ''.''))
       (find_mmd_files (fst (check_mmdc exec w)) ''.'')"
  using assms by (cases "check_mmdc exec w") (simp add: main_def loop_start_def Let_def)

lemma main_no_files:
  assumes "snd (check_mmdc exec w) = Inr True"
    and "find_mmd_files (fst (check_mmdc exec w)) ''.'' = []"
  shows "main exec w = sys_exit (print (initial_state (fst (check_mmdc exec w))) ''No .mmd files found.'') 0"
  using assms by (cases "check_mmdc exec w") (simp add: main_def Let_def)

lemma loop_start_fields [simp]:
  "the_world (loop_start w1 fs) = w1"
  "generated (loop_start w1 fs) = 0"
  "updated (loop_start w1 fs) = 0"
  "skipped (loop_start w1 fs) = 0"
  "errors (loop_start w1 fs) = []"
  by (simp_all add: loop_start_def initial_state_def)

lemma main_loop_cases:
  "process_files exec st fs = (st', None) \<Longrightarrow> main_loop exec st fs = report st'"
  "process_files exec st fs = (st', Some e) \<Longrightarrow> main_loop exec st fs = crash st' e"
  by (simp_all add: main_loop_def)

lemma main_loop_exit_code:
  assumes "process_files exec st fs = (st', exc)" and "errors st' \<noteq> [] \<or> exc \<noteq> None"
  shows "exit_code (main_loop exec st fs) = 1"
  using assms by (cases exc) (auto simp: main_loop_def report_fields crash_def)

lemma main_loop_errors:
  "process_files exec st fs = (st', exc) \<Longrightarrow> errors (final (main_loop exec st fs)) = errors st'"
  by (cases exc) (auto simp: main_loop_def report_fields crash_def)

text \<open>A run that reaches the loop and raises nothing accounts for every file found.\<close>

lemma run_accounts_for_all_files:
  assumes "snd (check_mmdc exec w) = Inr True"
    and "find_mmd_files (fst (check_mmdc exec w)) ''.'' \<noteq> []"
    and "uncaught (main exec w) = None"
  shows "counted (final (main exec w)) = int (length (find_mmd_files (fst (check_mmdc exec w)) ''.''))"
    and "summary_line (final (main exec w)) \<in> set (stdout (final (main exec w)))"
proof -
  let ?wa = "fst (check_mmdc exec w)"
  let ?fs = "find_mmd_files ?wa ''.''"
  let ?start = "loop_start ?wa ?fs"
  have m: "main exec w = main_loop exec ?start ?fs" using main_runs_loop[OF assms(1,2)] .
  obtain st' exc where pf: "process_files exec ?start ?fs = (st', exc)"
    by (cases "process_files exec ?start ?fs")
  have exc: "exc = None"
  proof (cases exc)
    case None
    then show ?thesis .
  next
    case (Some e)
    with pf m have "uncaught (main exec w) = Some e" by (simp add: main_loop_cases crash_def)
    with assms(3) show ?thesis by simp
  qed
  with pf m have r: "main exec w = report st'" by (simp add: main_loop_cases)
  from process_files_counts[OF pf] exc have "counted st' = counted ?start + int (length ?fs)" by simp
  then have c: "counted st' = int (length ?fs)" by (simp add: counted_def)
  then show "counted (final (main exec w)) = int (length ?fs)"
    by (simp add: r report_fields counted_def)
  have "summary_line (final (report st')) = summary_line st'"
    by (rule summary_line_cong) (simp_all add: report_fields)
  with report_prints_summary[of st'] show "summary_line (final (main exec w)) \<in> set (stdout (final (main exec w)))"
    by (simp add: r)
qed

section \<open>The counters\<close>

text \<open>
  C10. One pass of the loop that raises nothing adds exactly one to the number of files
  accounted for, and no pass lowers a counter or removes an error. So after a loop that
  raises nothing the counters and the errors add up to what they were plus the number of
  files. In a run that reaches the loop and prints its summary, generated, updated,
  skipped and the number of errors of that summary add up to the number of files found.
\<close>

theorem summary_counts_add_up:
  "(\<forall>st' exc. process_file exec st f = (st', exc) \<longrightarrow>
      generated st \<le> generated st' \<and> updated st \<le> updated st' \<and> skipped st \<le> skipped st' \<and>
      prefix (errors st) (errors st') \<and> (exc = None \<longrightarrow> counted st' = counted st + 1)) \<and>
   (\<forall>st' exc. process_files exec st fs = (st', exc) \<longrightarrow>
      generated st \<le> generated st' \<and> updated st \<le> updated st' \<and> skipped st \<le> skipped st' \<and>
      prefix (errors st) (errors st') \<and>
      (exc = None \<longrightarrow> counted st' = counted st + int (length fs))) \<and>
   (snd (check_mmdc exec w) = Inr True \<and>
    find_mmd_files (fst (check_mmdc exec w)) ''.'' \<noteq> [] \<and>
    uncaught (main exec w) = None \<longrightarrow>
      generated (final (main exec w)) + updated (final (main exec w)) + skipped (final (main exec w))
        + int (length (errors (final (main exec w))))
        = int (length (find_mmd_files (fst (check_mmdc exec w)) ''.'')) \<and>
      summary_line (final (main exec w)) \<in> set (stdout (final (main exec w))))"
proof (intro conjI)
  show "\<forall>st' exc. process_file exec st f = (st', exc) \<longrightarrow>
      generated st \<le> generated st' \<and> updated st \<le> updated st' \<and> skipped st \<le> skipped st' \<and>
      prefix (errors st) (errors st') \<and> (exc = None \<longrightarrow> counted st' = counted st + 1)"
    using process_file_counts by blast
  show "\<forall>st' exc. process_files exec st fs = (st', exc) \<longrightarrow>
      generated st \<le> generated st' \<and> updated st \<le> updated st' \<and> skipped st \<le> skipped st' \<and>
      prefix (errors st) (errors st') \<and>
      (exc = None \<longrightarrow> counted st' = counted st + int (length fs))"
    using process_files_counts by blast
  show "snd (check_mmdc exec w) = Inr True \<and>
    find_mmd_files (fst (check_mmdc exec w)) ''.'' \<noteq> [] \<and>
    uncaught (main exec w) = None \<longrightarrow>
      generated (final (main exec w)) + updated (final (main exec w)) + skipped (final (main exec w))
        + int (length (errors (final (main exec w))))
        = int (length (find_mmd_files (fst (check_mmdc exec w)) ''.'')) \<and>
      summary_line (final (main exec w)) \<in> set (stdout (final (main exec w)))"
  proof (intro impI)
    assume a: "snd (check_mmdc exec w) = Inr True \<and>
      find_mmd_files (fst (check_mmdc exec w)) ''.'' \<noteq> [] \<and> uncaught (main exec w) = None"
    then have "counted (final (main exec w)) = int (length (find_mmd_files (fst (check_mmdc exec w)) ''.''))"
      and "summary_line (final (main exec w)) \<in> set (stdout (final (main exec w)))"
      using run_accounts_for_all_files[of exec w] by blast+
    then show "generated (final (main exec w)) + updated (final (main exec w)) + skipped (final (main exec w))
        + int (length (errors (final (main exec w))))
        = int (length (find_mmd_files (fst (check_mmdc exec w)) ''.'')) \<and>
      summary_line (final (main exec w)) \<in> set (stdout (final (main exec w)))"
      by (simp add: counted_def)
  qed
qed

lemma sample_check: "snd (check_mmdc sample_exec sample_world) = Inr True"
  by (simp add: check_mmdc_result sample_exec_def)

lemma sample_found:
  "find_mmd_files (fst (check_mmdc sample_exec sample_world)) ''.'' = [''./a.mmd'', ''./b.mmd'', ''./docs/a.mmd'']"
  by code_simp

lemma sample_run:
  "uncaught (main sample_exec sample_world) = None"
  "exit_code (main sample_exec sample_world) = 1"
  "generated (final (main sample_exec sample_world)) = 0"
  "updated (final (main sample_exec sample_world)) = 1"
  "skipped (final (main sample_exec sample_world)) = 1"
  "errors (final (main sample_exec sample_world)) = [(''./b.mmd'', Some ''Parse error on line 1'')]"
  by code_simp+

theorem summary_counts_add_up_witness:
  "snd (check_mmdc sample_exec sample_world) = Inr True \<and>
   find_mmd_files (fst (check_mmdc sample_exec sample_world)) ''.'' = [''./a.mmd'', ''./b.mmd'', ''./docs/a.mmd''] \<and>
   uncaught (main sample_exec sample_world) = None \<and>
   generated (final (main sample_exec sample_world)) = 0 \<and>
   updated (final (main sample_exec sample_world)) = 1 \<and>
   skipped (final (main sample_exec sample_world)) = 1 \<and>
   length (errors (final (main sample_exec sample_world))) = 1 \<and>
   generated (final (main sample_exec sample_world)) + updated (final (main sample_exec sample_world))
     + skipped (final (main sample_exec sample_world))
     + int (length (errors (final (main sample_exec sample_world)))) = 3 \<and>
   summary_line (final (main sample_exec sample_world))
     \<in> set (stdout (final (main sample_exec sample_world)))"
proof -
  note inst = summary_counts_add_up[of sample_exec "initial_state sample_world" "''./a.mmd''" "[]" sample_world]
  have ne: "find_mmd_files (fst (check_mmdc sample_exec sample_world)) ''.'' \<noteq> []"
    by (simp add: sample_found)
  from inst sample_check ne sample_run(1)
  have "generated (final (main sample_exec sample_world)) + updated (final (main sample_exec sample_world))
          + skipped (final (main sample_exec sample_world))
          + int (length (errors (final (main sample_exec sample_world))))
        = int (length (find_mmd_files (fst (check_mmdc sample_exec sample_world)) ''.''))"
    and "summary_line (final (main sample_exec sample_world))
          \<in> set (stdout (final (main sample_exec sample_world)))"
    by blast+
  with sample_check sample_found sample_run show ?thesis by simp
qed

section \<open>A failing render\<close>

text \<open>
  C3, as stated, fails when what the failing renderer wrote cannot be decoded as text.
  In the sample project with such a renderer, the render of \<open>./b.mmd\<close> ends with
  return code 1; \<open>subprocess.run\<close> raises \<open>UnicodeDecodeError\<close>, which nothing
  catches; the file is not recorded under errors, the run ends there and
  \<open>./docs/a.mmd\<close>, next in the list, is never looked at; no summary is printed.
\<close>

theorem undecodable_failure_aborts_the_run:
  "snd (check_mmdc garbled_exec sample_world) = Inr True \<and>
   find_mmd_files (fst (check_mmdc garbled_exec sample_world)) ''.'' =
     [''./a.mmd'', ''./b.mmd'', ''./docs/a.mmd''] \<and>
   snd (garbled_exec sample_world [''mmdc'', ''-i'', ''./b.mmd'', ''-o'', ''./b.svg'']
          (w_environ sample_world)) = Undecodable 1 \<and>
   uncaught (main garbled_exec sample_world) = Some UnicodeDecodeError \<and>
   errors (final (main garbled_exec sample_world)) = [] \<and>
   generated (final (main garbled_exec sample_world)) = 0 \<and>
   updated (final (main garbled_exec sample_world)) = 1 \<and>
   skipped (final (main garbled_exec sample_world)) = 0 \<and>
   skipped (final (main sample_exec sample_world)) = 1 \<and>
   stdout (final (main garbled_exec sample_world)) =
     [''Scanning for Mermaid files (.mmd)...'',
      ''Found 3 file(s)'' @ [CHR 0x0A],
      ''Updating: ./a.svg (source is newer)'',
      ''Generating: ./b.svg''] \<and>
   map fst (spawned (the_world (final (main garbled_exec sample_world)))) =
     [[''mmdc'', ''--version''],
      [''mmdc'', ''-i'', ''./a.mmd'', ''-o'', ''./a.svg''],
      [''mmdc'', ''-i'', ''./b.mmd'', ''-o'', ''./b.svg'']]"
  by code_simp

text \<open>
  C3, amended. In a run whose availability check succeeded and whose sorted list of files
  is \<open>done @ f # rest\<close>: when the loop has come to \<open>f\<close> in state \<open>st\<close>, \<open>f\<close> needs
  generation and the renderer completes with a non-zero return code and output that
  decodes as text, \<open>err\<close> on standard error, then the pass for \<open>f\<close> raises nothing,
  appends \<open>(f, err)\<close> to the errors and changes no counter; the run goes on as the loop
  over \<open>rest\<close> from that state; the entry is among the errors at the end of the run; and
  the exit code is 1. Unless an exception of another kind ends the run, every file of the
  list, those after \<open>f\<close> too, is accounted for at the end.
\<close>

theorem render_failure_is_recorded_and_run_continues:
  assumes "snd (check_mmdc exec w) = Inr True"
    and "find_mmd_files (fst (check_mmdc exec w)) ''.'' = done @ f # rest"
    and "process_files exec (loop_start (fst (check_mmdc exec w)) (done @ f # rest)) done = (st, None)"
    and "needs_generation (the_world st) f = Inr (True, v)"
    and "snd (exec (the_world st) [''mmdc'', ''-i'', f, ''-o'', svg_path f]
            (child_env (w_environ (the_world st)) (find_chrome_path (the_world st))))
         = Completed returncode out err"
    and "returncode \<noteq> 0"
  shows "\<exists>st1. process_file exec st f = (st1, None) \<and>
           errors st1 = errors st @ [(f, Some err)] \<and>
           generated st1 = generated st \<and> updated st1 = updated st \<and> skipped st1 = skipped st \<and>
           main exec w = main_loop exec st1 rest \<and>
           (f, Some err) \<in> set (errors (final (main exec w))) \<and>
           exit_code (main exec w) = 1 \<and>
           (uncaught (main exec w) = None \<longrightarrow>
              counted (final (main exec w)) = int (length (done @ f # rest)))"
proof -
  let ?wa = "fst (check_mmdc exec w)"
  let ?fs = "done @ f # rest"
  let ?start = "loop_start ?wa ?fs"
  obtain w' where g: "generate_svg exec (the_world st) f = (w', Inr (False, Some err))"
    using generate_svg_result[of exec "the_world st" f] assms(5,6)
    by (cases "generate_svg exec (the_world st) f") simp
  let ?next = "(announce st v f)\<lparr>the_world := w', errors := errors st @ [(f, Some err)]\<rparr>"
  from process_file_render_fails[OF assms(4) g]
  have pf: "process_file exec st f = (?next, None)" .
  have m: "main exec w = main_loop exec ?start ?fs"
    using main_runs_loop[OF assms(1)] assms(2) by simp
  have split: "process_files exec ?start ?fs = process_files exec ?next rest"
    using process_files_append[OF assms(3), of "f # rest"] pf by simp
  then have ml: "main_loop exec ?start ?fs = main_loop exec ?next rest"
    by (simp add: main_loop_def)
  obtain st' exc where rest: "process_files exec ?next rest = (st', exc)"
    by (cases "process_files exec ?next rest")
  from process_files_counts[OF rest] have "prefix (errors ?next) (errors st')" by simp
  then have mem: "(f, Some err) \<in> set (errors st')" by (auto simp: prefix_def)
  then have "errors st' \<noteq> []" by auto
  with main_loop_exit_code[OF rest] have ec: "exit_code (main_loop exec ?next rest) = 1" by simp
  from main_loop_errors[OF rest] mem
  have er: "(f, Some err) \<in> set (errors (final (main_loop exec ?next rest)))" by simp
  have all: "uncaught (main exec w) = None \<longrightarrow>
      counted (final (main exec w)) = int (length (done @ f # rest))"
    using run_accounts_for_all_files(1)[OF assms(1)] assms(2) by simp
  have concl: "process_file exec st f = (?next, None) \<and>
        errors ?next = errors st @ [(f, Some err)] \<and>
        generated ?next = generated st \<and> updated ?next = updated st \<and> skipped ?next = skipped st \<and>
        main exec w = main_loop exec ?next rest \<and>
        (f, Some err) \<in> set (errors (final (main exec w))) \<and>
        exit_code (main exec w) = 1 \<and>
        (uncaught (main exec w) = None \<longrightarrow>
           counted (final (main exec w)) = int (length (done @ f # rest)))"
    using pf m ml ec er all by simp
  show ?thesis by (rule exI[of _ ?next]) (rule concl)
qed

lemma sample_after_a:
  "snd (process_files sample_exec
     (loop_start (fst (check_mmdc sample_exec sample_world)) ([''./a.mmd''] @ ''./b.mmd'' # [''./docs/a.mmd'']))
     [''./a.mmd'']) = None"
  by code_simp

lemma sample_b_needed:
  "needs_generation (the_world (fst (process_files sample_exec
     (loop_start (fst (check_mmdc sample_exec sample_world)) ([''./a.mmd''] @ ''./b.mmd'' # [''./docs/a.mmd'']))
     [''./a.mmd'']))) ''./b.mmd'' = Inr (True, Missing)"
  by code_simp

lemma sample_b_fails:
  "snd (sample_exec w [''mmdc'', ''-i'', ''./b.mmd'', ''-o'', svg_path ''./b.mmd''] env)
     = Completed 1 [] ''Parse error on line 1''"
  by (simp add: sample_exec_def)

theorem render_failure_is_recorded_and_run_continues_witness:
  "snd (check_mmdc sample_exec sample_world) = Inr True \<and>
   find_mmd_files (fst (check_mmdc sample_exec sample_world)) ''.'' = [''./a.mmd''] @ ''./b.mmd'' # [''./docs/a.mmd''] \<and>
   (1::int) \<noteq> 0 \<and>
   (''./b.mmd'', Some ''Parse error on line 1'') \<in> set (errors (final (main sample_exec sample_world))) \<and>
   exit_code (main sample_exec sample_world) = 1 \<and>
   skipped (final (main sample_exec sample_world)) = 1 \<and>
   uncaught (main sample_exec sample_world) = None \<and>
   counted (final (main sample_exec sample_world)) = 3 \<and>
   map fst (spawned (the_world (final (main sample_exec sample_world)))) =
     [[''mmdc'', ''--version''],
      [''mmdc'', ''-i'', ''./a.mmd'', ''-o'', ''./a.svg''],
      [''mmdc'', ''-i'', ''./b.mmd'', ''-o'', ''./b.svg'']]"
proof -
  let ?fs = "[''./a.mmd''] @ ''./b.mmd'' # [''./docs/a.mmd'']"
  let ?start = "loop_start (fst (check_mmdc sample_exec sample_world)) ?fs"
  let ?st = "fst (process_files sample_exec ?start [''./a.mmd''])"
  have found: "find_mmd_files (fst (check_mmdc sample_exec sample_world)) ''.'' = ?fs"
    using sample_found by simp
  have reached: "process_files sample_exec ?start [''./a.mmd''] = (?st, None)"
    by (rule prod_eqI) (simp_all only: fst_conv snd_conv sample_after_a)
  have nz: "(1::int) \<noteq> 0" by simp
  from render_failure_is_recorded_and_run_continues[OF sample_check found reached sample_b_needed
      sample_b_fails nz]
  have 1: "(''./b.mmd'', Some ''Parse error on line 1'') \<in> set (errors (final (main sample_exec sample_world)))"
    and 2: "exit_code (main sample_exec sample_world) = 1"
    and 4: "uncaught (main sample_exec sample_world) = None \<longrightarrow>
      counted (final (main sample_exec sample_world)) = int (length ([''./a.mmd''] @ ''./b.mmd'' # [''./docs/a.mmd'']))"
    by blast+
  from 4 sample_run(1) have 5: "counted (final (main sample_exec sample_world)) = 3" by simp
  have 3: "map fst (spawned (the_world (final (main sample_exec sample_world)))) =
     [[''mmdc'', ''--version''],
      [''mmdc'', ''-i'', ''./a.mmd'', ''-o'', ''./a.svg''],
      [''mmdc'', ''-i'', ''./b.mmd'', ''-o'', ''./b.svg'']]"
    by code_simp
  from sample_check found nz 1 2 3 5 sample_run(1,5) show ?thesis by blast
qed

section \<open>A project with no diagrams\<close>

lemma no_sources_found:
  assumes "w_scandir w r = Some es"
    and "\<forall>(chain, f) \<in> set (tree_files [] es). \<not> str_endswith f ''.mmd''"
  shows "find_mmd_files w r = []"
proof -
  have "filter (\<lambda>(chain, f). \<not> inside_excluded chain \<and> str_endswith f ''.mmd'') (tree_files [] es) = []"
    unfolding filter_empty_conv using assms(2) by blast
  with find_mmd_files_Some[OF assms(1)] found_files[of r es] show ?thesis by simp
qed

text \<open>
  C9, as stated, fails where the renderer is not installed: over a project with no diagram the run
  exits with status 1 and prints the install instructions, not the notice. And where the
  renderer is installed, the run over such a project does start a child process, the
  availability check \<open>mmdc --version\<close>.
\<close>

theorem no_sources_without_renderer:
  "w_scandir plain_world ''.'' = Some plain_tree \<and>
   find_mmd_files plain_world ''.'' = [] \<and>
   exit_code (main absent_exec plain_world) = 1 \<and>
   stdout (final (main absent_exec plain_world)) = install_message \<and>
   ''No .mmd files found.'' \<notin> set (stdout (final (main absent_exec plain_world))) \<and>
   exit_code (main sample_exec plain_world) = 0 \<and>
   map fst (spawned (the_world (final (main sample_exec plain_world)))) = [[''mmdc'', ''--version'']]"
  by code_simp

text \<open>
  C9, amended. When the availability check succeeds and the tree under the current
  directory, as the check leaves it, holds no file whose name ends in \<open>.mmd\<close>, the run
  exits with status 0, prints the notice that no files were found and nothing else, and
  starts no render: its only child process is the availability check.
\<close>

theorem no_sources_exit_zero:
  assumes "snd (check_mmdc exec w) = Inr True"
    and "w_scandir (fst (check_mmdc exec w)) ''.'' = Some es"
    and "\<forall>(chain, f) \<in> set (tree_files [] es). \<not> str_endswith f ''.mmd''"
  shows "exit_code (main exec w) = 0 \<and>
         uncaught (main exec w) = None \<and>
         stdout (final (main exec w)) = [''No .mmd files found.''] \<and>
         the_world (final (main exec w)) = fst (check_mmdc exec w) \<and>
         spawned (the_world (final (main exec w))) = spawned w @ [([''mmdc'', ''--version''], w_environ w)]"
proof -
  from no_sources_found[OF assms(2,3)]
  have "find_mmd_files (fst (check_mmdc exec w)) ''.'' = []" .
  from main_no_files[OF assms(1) this]
  have m: "main exec w = sys_exit (print (initial_state (fst (check_mmdc exec w))) ''No .mmd files found.'') 0" .
  have w: "the_world (final (main exec w)) = fst (check_mmdc exec w)"
    by (simp add: m sys_exit_def initial_state_def)
  have "spawned (the_world (final (main exec w))) = spawned w @ [([''mmdc'', ''--version''], w_environ w)]"
    unfolding w by (rule check_mmdc_spawned)
  with w show ?thesis by (simp add: m sys_exit_def initial_state_def)
qed

lemma plain_world_check: "snd (check_mmdc sample_exec plain_world) = Inr True"
  by (simp add: check_mmdc_result sample_exec_def)

lemma plain_world_tree: "w_scandir (fst (check_mmdc sample_exec plain_world)) ''.'' = Some plain_tree"
  by code_simp

theorem no_sources_exit_zero_witness:
  "snd (check_mmdc sample_exec plain_world) = Inr True \<and>
   w_scandir (fst (check_mmdc sample_exec plain_world)) ''.'' = Some plain_tree \<and>
   tree_files [] plain_tree = [([], ''README.md''), ([''src''], ''main.py'')] \<and>
   exit_code (main sample_exec plain_world) = 0 \<and>
   uncaught (main sample_exec plain_world) = None \<and>
   stdout (final (main sample_exec plain_world)) = [''No .mmd files found.''] \<and>
   map fst (spawned (the_world (final (main sample_exec plain_world)))) = [[''mmdc'', ''--version'']]"
proof -
  have tf: "tree_files [] plain_tree = [([], ''README.md''), ([''src''], ''main.py'')]" by code_simp
  have "\<not> str_endswith ''README.md'' ''.mmd''" "\<not> str_endswith ''main.py'' ''.mmd''" by code_simp+
  with tf have none: "\<forall>(chain, f) \<in> set (tree_files [] plain_tree). \<not> str_endswith f ''.mmd''"
    by simp
  have s: "spawned plain_world = []" by (simp add: plain_world_def sample_world_def)
  note inst = no_sources_exit_zero[OF plain_world_check plain_world_tree none]
  from inst have sp: "spawned (the_world (final (main sample_exec plain_world))) =
      spawned plain_world @ [([''mmdc'', ''--version''], w_environ plain_world)]" by blast
  from inst have "exit_code (main sample_exec plain_world) = 0"
    "uncaught (main sample_exec plain_world) = None"
    "stdout (final (main sample_exec plain_world)) = [''No .mmd files found.'']"
    by blast+
  moreover from sp s
  have "map fst (spawned (the_world (final (main sample_exec plain_world)))) = [[''mmdc'', ''--version'']]"
    by simp
  ultimately have "exit_code (main sample_exec plain_world) = 0"
    "uncaught (main sample_exec plain_world) = None"
    "stdout (final (main sample_exec plain_world)) = [''No .mmd files found.'']"
    "map fst (spawned (the_world (final (main sample_exec plain_world)))) = [[''mmdc'', ''--version'']]"
    by blast+
  with plain_world_check plain_world_tree tf show ?thesis by simp
qed

section \<open>The helper executable\<close>

lemma os_path_join_nonempty: "b \<noteq> [] \<Longrightarrow> os_path_join a b \<noteq> []"
  by (simp add: os_path_join_def)

lemma find_Some_mem: "find P xs = Some x \<Longrightarrow> x \<in> set xs \<and> P x"
  by (induction xs) (auto split: if_splits)

lemma first_glob_match_mem:
  "first_glob_match w patterns = Some p \<Longrightarrow>
     \<exists>pattern \<in> set patterns. w_glob w pattern \<noteq> [] \<and> p = last (sort (w_glob w pattern))"
  by (induction patterns) (auto simp: Let_def split: if_splits)

lemma last_sort_mem: "xs \<noteq> [] \<Longrightarrow> last (sort xs) \<in> set xs"
proof -
  assume "xs \<noteq> []"
  then have "sort xs \<noteq> []" by (metis length_sort length_0_conv)
  then have "last (sort xs) \<in> set (sort xs)" by (rule last_in_set)
  then show ?thesis by simp
qed

text \<open>Among the matches of a pattern the greatest in the order of strings is taken.\<close>

lemma last_sort_greatest: "x \<in> set xs \<Longrightarrow> x \<le> last (sort xs)"
proof -
  assume x: "x \<in> set xs"
  then have ne: "sort xs \<noteq> []" by (metis empty_iff length_sort length_0_conv list.set(1))
  have s: "sorted (sort xs)" by simp
  from x have "x \<in> set (sort xs)" by simp
  then obtain i where i: "i < length (sort xs)" "sort xs ! i = x" by (metis in_set_conv_nth)
  from ne have l: "last (sort xs) = sort xs ! (length (sort xs) - 1)" by (rule last_conv_nth)
  from i have "i \<le> length (sort xs) - 1" by simp
  with s i ne have "sort xs ! i \<le> sort xs ! (length (sort xs) - 1)"
    by (intro sorted_nth_mono) auto
  with i l show ?thesis by simp
qed

lemma chrome_in_walk_nonempty: "chrome_in_walk triples = Some p \<Longrightarrow> p \<noteq> []"
  by (induction triples rule: chrome_in_walk.induct)
    (auto simp: os_path_join_nonempty split: if_splits)

lemma chrome_in_bases_nonempty: "chrome_in_bases w bases = Some p \<Longrightarrow> p \<noteq> []"
  by (induction bases) (auto dest: chrome_in_walk_nonempty split: if_splits option.splits)

lemma find_chrome_path_nonempty:
  assumes "\<forall>pattern. [] \<notin> set (w_glob w pattern)"
    and "find_chrome_path w = Some p"
  shows "p \<noteq> []"
proof (cases "find (os_path_exists w) system_chrome_paths")
  case (Some q)
  with assms(2) have "p = q" by (simp add: find_chrome_path_def)
  with find_Some_mem[OF Some] show ?thesis by (auto simp: system_chrome_paths_def)
next
  case None
  show ?thesis
  proof (cases "first_glob_match w (puppeteer_cache_paths (w_home w))")
    case (Some q)
    with None assms(2) have pq: "p = q" by (simp add: find_chrome_path_def Let_def)
    from first_glob_match_mem[OF Some] obtain pattern where
      "w_glob w pattern \<noteq> []" "q = last (sort (w_glob w pattern))" by blast
    with last_sort_mem[of "w_glob w pattern"] have "q \<in> set (w_glob w pattern)" by simp
    with assms(1) pq show ?thesis by auto
  next
    case n2: None
    with None assms(2) have "chrome_in_bases w (puppeteer_direct_paths (w_home w)) = Some p"
      by (simp add: find_chrome_path_def Let_def)
    then show ?thesis by (rule chrome_in_bases_nonempty)
  qed
qed

section \<open>The environment of the render\<close>

text \<open>
  C8. Every call of \<open>generate_svg\<close> starts one child, \<open>mmdc -i source -o output\<close>.
  When a helper executable is found, the child's environment is the parent's with
  \<open>PUPPETEER_EXECUTABLE_PATH\<close> and \<open>CHROME_PATH\<close> both set to the path found and every
  other variable as in the parent's; when none is found it is the parent's environment.
  (A match of \<open>glob\<close> is never the empty string.)
\<close>

theorem render_child_environment:
  assumes "\<forall>pattern. [] \<notin> set (w_glob w pattern)"
  shows "\<exists>env. spawned (fst (generate_svg exec w f)) =
             spawned w @ [([''mmdc'', ''-i'', f, ''-o'', svg_path f], env)] \<and>
           (find_chrome_path w = None \<longrightarrow> env = w_environ w) \<and>
           (\<forall>path. find_chrome_path w = Some path \<longrightarrow>
              env ''PUPPETEER_EXECUTABLE_PATH'' = Some path \<and>
              env ''CHROME_PATH'' = Some path \<and>
              (\<forall>k. k \<noteq> ''PUPPETEER_EXECUTABLE_PATH'' \<and> k \<noteq> ''CHROME_PATH'' \<longrightarrow> env k = w_environ w k))"
proof -
  let ?env = "child_env (w_environ w) (find_chrome_path w)"
  have 1: "spawned (fst (generate_svg exec w f)) =
      spawned w @ [([''mmdc'', ''-i'', f, ''-o'', svg_path f], ?env)]"
    by (rule generate_svg_spawned)
  have 2: "find_chrome_path w = None \<longrightarrow> ?env = w_environ w"
    by (simp add: child_env_def)
  have 3: "\<forall>path. find_chrome_path w = Some path \<longrightarrow>
      ?env ''PUPPETEER_EXECUTABLE_PATH'' = Some path \<and>
      ?env ''CHROME_PATH'' = Some path \<and>
      (\<forall>k. k \<noteq> ''PUPPETEER_EXECUTABLE_PATH'' \<and> k \<noteq> ''CHROME_PATH'' \<longrightarrow> ?env k = w_environ w k)"
  proof (intro allI impI)
    fix path assume p: "find_chrome_path w = Some path"
    from find_chrome_path_nonempty[OF assms p] have "path \<noteq> []" .
    with p show "?env ''PUPPETEER_EXECUTABLE_PATH'' = Some path \<and>
      ?env ''CHROME_PATH'' = Some path \<and>
      (\<forall>k. k \<noteq> ''PUPPETEER_EXECUTABLE_PATH'' \<and> k \<noteq> ''CHROME_PATH'' \<longrightarrow> ?env k = w_environ w k)"
      by (simp add: child_env_def)
  qed
  show ?thesis
    by (rule exI[of _ ?env]) (intro conjI 1 2 3)
qed

lemma cache_world_glob: "\<forall>pattern. [] \<notin> set (w_glob (cache_world tree) pattern)"
  by (simp add: cache_world_def sample_world_def)

lemma sample_world_glob: "\<forall>pattern. [] \<notin> set (w_glob sample_world pattern)"
  by (simp add: sample_world_def)

lemma cache_world_chrome:
  "find_chrome_path (cache_world cache_tree_reordered) =
     Some ''/home/dev/.cache/puppeteer/chrome/linux-131/chrome-headless-shell-linux64/chrome-headless-shell''"
  "find_chrome_path (cache_world cache_tree) =
     Some ''/home/dev/.cache/puppeteer/chrome/linux-131/chrome-linux64/chrome''"
  "find_chrome_path sample_world = None"
  by code_simp+

theorem render_child_environment_witness:
  "(\<forall>pattern. [] \<notin> set (w_glob sample_world pattern)) \<and>
   find_chrome_path sample_world = None \<and>
   spawned (fst (generate_svg sample_exec sample_world ''./a.mmd'')) =
     [([''mmdc'', ''-i'', ''./a.mmd'', ''-o'', ''./a.svg''], w_environ sample_world)] \<and>
   (\<forall>pattern. [] \<notin> set (w_glob (cache_world cache_tree) pattern)) \<and>
   find_chrome_path (cache_world cache_tree) =
     Some ''/home/dev/.cache/puppeteer/chrome/linux-131/chrome-linux64/chrome'' \<and>
   (\<exists>env. spawned (fst (generate_svg sample_exec (cache_world cache_tree) ''./a.mmd'')) =
       [([''mmdc'', ''-i'', ''./a.mmd'', ''-o'', ''./a.svg''], env)] \<and>
     env ''PUPPETEER_EXECUTABLE_PATH'' =
       Some ''/home/dev/.cache/puppeteer/chrome/linux-131/chrome-linux64/chrome'' \<and>
     env ''CHROME_PATH'' =
       Some ''/home/dev/.cache/puppeteer/chrome/linux-131/chrome-linux64/chrome'' \<and>
     env ''PATH'' = Some ''/usr/bin'' \<and>
     env ''HOME'' = None)"
proof -
  have s: "spawned sample_world = []" "spawned (cache_world cache_tree) = []"
    by (simp_all add: cache_world_def sample_world_def)
  have e: "w_environ (cache_world cache_tree) ''PATH'' = Some ''/usr/bin''"
    "w_environ (cache_world cache_tree) ''HOME'' = None"
    by (simp_all add: cache_world_def sample_world_def)
  from render_child_environment[OF sample_world_glob, of sample_exec "''./a.mmd''"]
    cache_world_chrome(3) s(1) sample_svg_paths(1)
  have 1: "spawned (fst (generate_svg sample_exec sample_world ''./a.mmd'')) =
     [([''mmdc'', ''-i'', ''./a.mmd'', ''-o'', ''./a.svg''], w_environ sample_world)]"
    by auto
  from render_child_environment[OF cache_world_glob, of sample_exec cache_tree "''./a.mmd''"]
  obtain env where env:
    "spawned (fst (generate_svg sample_exec (cache_world cache_tree) ''./a.mmd'')) =
       spawned (cache_world cache_tree) @ [([''mmdc'', ''-i'', ''./a.mmd'', ''-o'', svg_path ''./a.mmd''], env)]"
    "\<forall>path. find_chrome_path (cache_world cache_tree) = Some path \<longrightarrow>
       env ''PUPPETEER_EXECUTABLE_PATH'' = Some path \<and>
       env ''CHROME_PATH'' = Some path \<and>
       (\<forall>k. k \<noteq> ''PUPPETEER_EXECUTABLE_PATH'' \<and> k \<noteq> ''CHROME_PATH'' \<longrightarrow>
          env k = w_environ (cache_world cache_tree) k)"
    by blast
  from env(2) cache_world_chrome(2) have
    a: "env ''PUPPETEER_EXECUTABLE_PATH'' = Some ''/home/dev/.cache/puppeteer/chrome/linux-131/chrome-linux64/chrome''"
    and b: "env ''CHROME_PATH'' = Some ''/home/dev/.cache/puppeteer/chrome/linux-131/chrome-linux64/chrome''"
    and c: "\<forall>k. k \<noteq> ''PUPPETEER_EXECUTABLE_PATH'' \<and> k \<noteq> ''CHROME_PATH'' \<longrightarrow>
          env k = w_environ (cache_world cache_tree) k"
    by blast+
  from c e have d: "env ''PATH'' = Some ''/usr/bin''" "env ''HOME'' = None" by simp_all
  from env(1) s(2) sample_svg_paths(1)
  have 2: "spawned (fst (generate_svg sample_exec (cache_world cache_tree) ''./a.mmd'')) =
       [([''mmdc'', ''-i'', ''./a.mmd'', ''-o'', ''./a.svg''], env)]" by simp
  from 2 a b d have "\<exists>env. spawned (fst (generate_svg sample_exec (cache_world cache_tree) ''./a.mmd'')) =
       [([''mmdc'', ''-i'', ''./a.mmd'', ''-o'', ''./a.svg''], env)] \<and>
     env ''PUPPETEER_EXECUTABLE_PATH'' =
       Some ''/home/dev/.cache/puppeteer/chrome/linux-131/chrome-linux64/chrome'' \<and>
     env ''CHROME_PATH'' =
       Some ''/home/dev/.cache/puppeteer/chrome/linux-131/chrome-linux64/chrome'' \<and>
     env ''PATH'' = Some ''/usr/bin'' \<and>
     env ''HOME'' = None" by blast
  then have 3: "\<exists>env. spawned (fst (generate_svg sample_exec (cache_world cache_tree) ''./a.mmd'')) =
       [([''mmdc'', ''-i'', ''./a.mmd'', ''-o'', ''./a.svg''], env)] \<and>
     env ''PUPPETEER_EXECUTABLE_PATH'' =
       Some ''/home/dev/.cache/puppeteer/chrome/linux-131/chrome-linux64/chrome'' \<and>
     env ''CHROME_PATH'' =
       Some ''/home/dev/.cache/puppeteer/chrome/linux-131/chrome-linux64/chrome'' \<and>
     env ''PATH'' = Some ''/usr/bin'' \<and>
     env ''HOME'' = None" .
  show ?thesis
    by (intro conjI) (rule sample_world_glob cache_world_chrome(3) 1 cache_world_glob
        cache_world_chrome(2) 3)+
qed

section \<open>Order of the search for the helper executable\<close>

text \<open>
  The strategies in their order: the first system path that exists; else, for the first
  pattern with a match, the greatest match; else the walk of the cache directory; else
  nothing, and the render gets the parent's environment.
\<close>

lemma find_chrome_path_system:
  "find (os_path_exists w) system_chrome_paths = Some p \<Longrightarrow> find_chrome_path w = Some p"
  by (simp add: find_chrome_path_def)

lemma find_chrome_path_glob:
  assumes "find (os_path_exists w) system_chrome_paths = None"
    and "first_glob_match w (puppeteer_cache_paths (w_home w)) = Some p"
  shows "find_chrome_path w = Some p"
    and "\<exists>pattern \<in> set (puppeteer_cache_paths (w_home w)).
           p \<in> set (w_glob w pattern) \<and> (\<forall>q \<in> set (w_glob w pattern). q \<le> p)"
proof -
  show "find_chrome_path w = Some p" using assms by (simp add: find_chrome_path_def Let_def)
  from first_glob_match_mem[OF assms(2)] obtain pattern where
    pat: "pattern \<in> set (puppeteer_cache_paths (w_home w))" "w_glob w pattern \<noteq> []"
      "p = last (sort (w_glob w pattern))" by blast
  from pat(2,3) last_sort_mem[of "w_glob w pattern"] have "p \<in> set (w_glob w pattern)" by simp
  moreover from pat(3) last_sort_greatest[of _ "w_glob w pattern"]
  have "\<forall>q \<in> set (w_glob w pattern). q \<le> p" by simp
  ultimately show "\<exists>pattern \<in> set (puppeteer_cache_paths (w_home w)).
           p \<in> set (w_glob w pattern) \<and> (\<forall>q \<in> set (w_glob w pattern). q \<le> p)"
    using pat(1) by blast
qed

lemma find_chrome_path_walk:
  assumes "find (os_path_exists w) system_chrome_paths = None"
    and "first_glob_match w (puppeteer_cache_paths (w_home w)) = None"
  shows "find_chrome_path w =
     (if os_path_exists w (os_path_join_all (w_home w) [''.cache'', ''puppeteer'', ''chrome''])
      then chrome_in_walk (os_walk_path w (\<lambda>d. True)
             (os_path_join_all (w_home w) [''.cache'', ''puppeteer'', ''chrome'']))
      else None)"
  using assms by (simp add: find_chrome_path_def Let_def puppeteer_direct_paths_def split: option.splits)

lemma not_found_keeps_environment:
  "find_chrome_path w = None \<Longrightarrow> child_env (w_environ w) (find_chrome_path w) = w_environ w"
  by (simp add: child_env_def)

text \<open>Within one directory the walk prefers the headless shell to the plain browser.\<close>

lemma chrome_in_walk_same_directory:
  "''chrome-headless-shell'' \<in> set files \<Longrightarrow>
     chrome_in_walk ((d, dirs, files) # triples) = Some (os_path_join d ''chrome-headless-shell'')"
  by simp

lemma cache_trees_same: "same_entries cache_tree cache_tree_reordered"
  unfolding cache_tree_def cache_tree_reordered_def
  by (intro same_Cons same_Dir same_swap same_Nil)

text \<open>
  C7. The walk stops at the first directory that holds either name, so across
  directories the headless shell is not preferred. With no system browser and no match
  of a pattern, a cache holding \<open>chrome-linux64/chrome\<close> and
  \<open>chrome-headless-shell-linux64/chrome-headless-shell\<close> side by side gives the plain
  browser when its directory is listed first, although the walk of that cache does come
  to the headless shell; with the two directories listed in the other order the same
  cache gives the headless shell.
\<close>

theorem walk_returns_plain_browser_despite_headless_shell:
  "find (os_path_exists (cache_world cache_tree)) system_chrome_paths = None \<and>
   first_glob_match (cache_world cache_tree) (puppeteer_cache_paths (w_home (cache_world cache_tree))) = None \<and>
   (''/home/dev/.cache/puppeteer/chrome/linux-131/chrome-headless-shell-linux64'', [],
      [''chrome-headless-shell''])
     \<in> set (os_walk_path (cache_world cache_tree) (\<lambda>d. True) ''/home/dev/.cache/puppeteer/chrome'') \<and>
   find_chrome_path (cache_world cache_tree) =
     Some ''/home/dev/.cache/puppeteer/chrome/linux-131/chrome-linux64/chrome'' \<and>
   find_chrome_path (cache_world cache_tree_reordered) =
     Some ''/home/dev/.cache/puppeteer/chrome/linux-131/chrome-headless-shell-linux64/chrome-headless-shell''"
  by code_simp

end
